theory Spec2Isabelle
  imports Main "HOL-Library.Sublist"
begin

section \<open>Package errors: the error taxonomy (internal/errors/types.go)\<close>

text \<open>
  \<open>ErrorCategory\<close> and \<open>ErrorType\<close> are Go string types whose values are the constants of
  two \<open>const\<close> blocks; they stay strings here, with one definition for each constant
  that the functions below use.
\<close>

type_synonym ErrorCategory = string
type_synonym ErrorType = string

definition ErrorCategoryRepository :: ErrorCategory where
  "ErrorCategoryRepository = ''REPOSITORY''"
definition ErrorCategoryEntity :: ErrorCategory where
  "ErrorCategoryEntity = ''ENTITY''"
definition ErrorCategoryAuthentication :: ErrorCategory where
  "ErrorCategoryAuthentication = ''AUTHENTICATION''"
definition ErrorCategoryValidation :: ErrorCategory where
  "ErrorCategoryValidation = ''VALIDATION''"
definition ErrorCategoryNetwork :: ErrorCategory where
  "ErrorCategoryNetwork = ''NETWORK''"
definition ErrorCategoryPR :: ErrorCategory where
  "ErrorCategoryPR = ''PULL_REQUEST''"
definition ErrorCategoryUnknown :: ErrorCategory where
  "ErrorCategoryUnknown = ''UNKNOWN''"

definition ErrorTypeRepositoryNotFound :: ErrorType where
  "ErrorTypeRepositoryNotFound = ''REPOSITORY_NOT_FOUND''"
definition ErrorTypeCatalogFileNotFound :: ErrorType where
  "ErrorTypeCatalogFileNotFound = ''CATALOG_FILE_NOT_FOUND''"
definition ErrorTypeEntityExists :: ErrorType where
  "ErrorTypeEntityExists = ''ENTITY_EXISTS''"
definition ErrorTypeEntityAlreadyRegistered :: ErrorType where
  "ErrorTypeEntityAlreadyRegistered = ''ENTITY_ALREADY_REGISTERED''"
definition ErrorTypeUnauthorized :: ErrorType where
  "ErrorTypeUnauthorized = ''UNAUTHORIZED''"
definition ErrorTypeForbidden :: ErrorType where
  "ErrorTypeForbidden = ''FORBIDDEN''"
definition ErrorTypeRateLimit :: ErrorType where
  "ErrorTypeRateLimit = ''RATE_LIMIT''"
definition ErrorTypePRExists :: ErrorType where
  "ErrorTypePRExists = ''PR_EXISTS''"
definition ErrorTypeUnknown :: ErrorType where
  "ErrorTypeUnknown = ''UNKNOWN''"

text \<open>
  A Go \<open>error\<close> value that is not nil is either a \<open>*ProcessingError\<close> or a value of some
  other dynamic type, of which the code only ever reads the text \<open>err.Error()\<close>
  (\<open>PlainError\<close>; an error wrapped by \<open>fmt.Errorf("...: %w", e)\<close> is of this kind).
  A nil \<open>error\<close> is \<open>None\<close>. \<open>ProcessingError\<close> has its \<open>Cause\<close> among its fields,
  so the two types are mutually recursive; the struct is a one-constructor datatype
  whose selectors carry the field names.

  Not in the model: a nil \<open>*ProcessingError\<close> stored in a non-nil \<open>error\<close> interface,
  which no call of \<open>CategorizeError\<close> in the repository passes.
\<close>

datatype go_error =
    PlainError string
  | ProcError ProcessingError
and ProcessingError =
    ProcessingError
      (Category: ErrorCategory)
      (Type: ErrorType)
      (Message: string)
      (Repository: string)
      (Cause: "go_error option")
      (Recoverable: bool)
      (UserFriendly: string)

text \<open>The assignment \<open>procErr.Repository = repo\<close>.\<close>

fun set_Repository :: "string \<Rightarrow> ProcessingError \<Rightarrow> ProcessingError" where
  "set_Repository repo (ProcessingError c t m r ca rc uf) = ProcessingError c t m repo ca rc uf"

text \<open>\<open>err.Error()\<close>; for a \<open>*ProcessingError\<close> the method of lines 72-77.\<close>

fun ErrorString :: "go_error \<Rightarrow> string" where
  "ErrorString (PlainError s) = s"
| "ErrorString (ProcError e) =
     (if Repository e \<noteq> ''''
      then ''['' @ Category e @ '':'' @ Type e @ ''] '' @ Message e
             @ '' (repo: '' @ Repository e @ '')''
      else ''['' @ Category e @ '':'' @ Type e @ ''] '' @ Message e)"

subsection \<open>Constructors\<close>

definition NewRepositoryNotFoundError :: "string \<Rightarrow> go_error option \<Rightarrow> ProcessingError" where
  "NewRepositoryNotFoundError repo cause =
     ProcessingError ErrorCategoryRepository ErrorTypeRepositoryNotFound
       ''repository not found or inaccessible'' repo cause False
       (''Repository '' @ [CHR 0x27] @ repo @ [CHR 0x27]
          @ '' was not found or you don'' @ [CHR 0x27]
          @ ''t have access to it. Please check the repository name and your permissions.'')"

definition NewEntityExistsError ::
  "string \<Rightarrow> string \<Rightarrow> go_error option \<Rightarrow> ProcessingError" where
  "NewEntityExistsError repo identifier cause =
     ProcessingError ErrorCategoryEntity ErrorTypeEntityExists
       (''entity with identifier '' @ [CHR 0x27] @ identifier @ [CHR 0x27] @ '' already exists'')
       repo cause False
       (''Component '' @ [CHR 0x27] @ identifier @ [CHR 0x27]
          @ '' already exists in Harness IDP. Use update mode or remove the existing component first.'')"

definition NewEntityAlreadyRegisteredError ::
  "string \<Rightarrow> go_error option \<Rightarrow> ProcessingError" where
  "NewEntityAlreadyRegisteredError repo cause =
     ProcessingError ErrorCategoryEntity ErrorTypeEntityAlreadyRegistered
       ''entity already registered'' repo cause False
       (''Repository '' @ [CHR 0x27] @ repo @ [CHR 0x27]
          @ '' has already been imported into Harness IDP. No action needed.'')"

definition NewCatalogFileNotFoundError ::
  "string \<Rightarrow> go_error option \<Rightarrow> ProcessingError" where
  "NewCatalogFileNotFoundError repo cause =
     ProcessingError ErrorCategoryRepository ErrorTypeCatalogFileNotFound
       ''catalog-info.yaml file not found'' repo cause False
       (''Repository '' @ [CHR 0x27] @ repo @ [CHR 0x27]
          @ '' doesn'' @ [CHR 0x27]
          @ ''t have a catalog-info.yaml file. Create one first or use YAML mode to generate it.'')"

text \<open>Decimal rendering of a number, as \<open>%d\<close> prints it.\<close>

fun show_nat :: "nat \<Rightarrow> string" where
  "show_nat n =
     (if n < 10 then [''0123456789'' ! n]
      else show_nat (n div 10) @ [''0123456789'' ! (n mod 10)])"

definition show_int :: "int \<Rightarrow> string" where
  "show_int i = (if i < 0 then ''-'' @ show_nat (nat (- i)) else show_nat (nat i))"

definition NewPRExistsError :: "string \<Rightarrow> int \<Rightarrow> go_error option \<Rightarrow> ProcessingError" where
  "NewPRExistsError repo prNumber cause =
     ProcessingError ErrorCategoryPR ErrorTypePRExists
       (''pull request already exists (PR #'' @ show_int prNumber @ '')'')
       repo cause False
       (''Repository '' @ [CHR 0x27] @ repo @ [CHR 0x27]
          @ '' already has an open pull request for Harness onboarding (PR #''
          @ show_int prNumber @ ''). Please review and merge it first.'')"

text \<open>
  The next two constructors take no repository: the \<open>Repository\<close> field of what they
  build is the empty string.
\<close>

definition NewUnauthorizedError :: "string \<Rightarrow> go_error option \<Rightarrow> ProcessingError" where
  "NewUnauthorizedError message cause =
     ProcessingError ErrorCategoryAuthentication ErrorTypeUnauthorized
       message '''' cause False
       ''Authentication failed. Please check your API keys and permissions.''"

definition NewRateLimitError :: "go_error option \<Rightarrow> ProcessingError" where
  "NewRateLimitError cause =
     ProcessingError ErrorCategoryNetwork ErrorTypeRateLimit
       ''rate limit exceeded'' '''' cause True
       ''API rate limit exceeded. The tool will retry automatically after a delay.''"

subsection \<open>CategorizeError\<close>

text \<open>\<open>strings.Contains\<close>: the second string occurs in the first as a contiguous run.\<close>

fun Contains :: "string \<Rightarrow> string \<Rightarrow> bool" where
  "Contains [] substr = (substr = [])"
| "Contains (c # cs) substr = (prefix substr (c # cs) \<or> Contains cs substr)"

text \<open>
  \<open>strings.ToLower\<close> is Go library code (Unicode case mapping), so \<open>CategorizeError\<close>
  takes it as its first argument \<open>ToLower\<close>, and what is proved of \<open>CategorizeError\<close> holds
  for every such function. \<open>ToLowerASCII\<close> is what \<open>strings.ToLower\<close> does on a string of
  ASCII bytes; it is the instance used to run the function on concrete inputs.

  Given a \<open>*ProcessingError\<close>, the Go function assigns the \<open>Repository\<close> field of the
  struct it was passed and returns the same pointer; the model returns the struct as it
  is after the assignment.
\<close>

definition lower_byte :: "char \<Rightarrow> char" where
  "lower_byte c =
     (if 65 \<le> (of_char c :: nat) \<and> (of_char c :: nat) \<le> 90
      then char_of ((of_char c :: nat) + 32) else c)"

definition ToLowerASCII :: "string \<Rightarrow> string" where
  "ToLowerASCII s = map lower_byte s"

definition CategorizeError ::
  "(string \<Rightarrow> string) \<Rightarrow> go_error option \<Rightarrow> string \<Rightarrow> ProcessingError option" where
  "CategorizeError ToLower err repo =
     (case err of
        None \<Rightarrow> None
      | Some (ProcError procErr) \<Rightarrow>
          Some (if Repository procErr = '''' then set_Repository repo procErr else procErr)
      | Some (PlainError msg) \<Rightarrow>
          (let errMsg = ToLower msg in
           if Contains errMsg ''404'' \<and> Contains errMsg ''not found''
             then Some (NewRepositoryNotFoundError repo err)
           else if Contains errMsg ''403'' \<and> Contains errMsg ''forbidden''
             then Some (ProcessingError ErrorCategoryAuthentication ErrorTypeForbidden
                          ''access forbidden'' repo err False
                          (''Access to repository '' @ [CHR 0x27] @ repo @ [CHR 0x27]
                             @ '' is forbidden. Check your GitHub App permissions.''))
           else if Contains errMsg ''401'' \<and> Contains errMsg ''unauthorized''
             then Some (NewUnauthorizedError ''GitHub authentication failed'' err)
           else if Contains errMsg ''429'' \<or> Contains errMsg ''rate limit''
             then Some (NewRateLimitError err)
           else if Contains errMsg ''duplicate_file_import''
                   \<or> Contains errMsg ''already been imported''
             then Some (NewEntityAlreadyRegisteredError repo err)
           else if Contains errMsg ''already exists'' \<or> Contains errMsg ''duplicate''
             then Some (NewEntityExistsError repo ''unknown'' err)
           else if Contains errMsg ''catalog-info.yaml'' \<and> Contains errMsg ''not found''
             then Some (NewCatalogFileNotFoundError repo err)
           else if Contains errMsg ''pull request'' \<and> Contains errMsg ''already''
             then Some (NewPRExistsError repo 0 err)
           else Some (ProcessingError ErrorCategoryUnknown ErrorTypeUnknown
                        msg repo err False
                        (''An unexpected error occurred while processing ''
                           @ [CHR 0x27] @ repo @ [CHR 0x27] @ '': '' @ msg))))"

subsection \<open>ProcessingResult and ErrorSummary\<close>

text \<open>
  \<open>ProcessingResult.Error\<close> is a \<open>*ProcessingError\<close>: \<open>None\<close> is nil. A field left out
  of a Go composite literal has its zero value (\<open>Skipped = False\<close>).
\<close>

record ProcessingResult =
  Repository :: string
  Success :: bool
  Error :: "ProcessingError option"
  Message :: string
  Skipped :: bool
  Action :: string

text \<open>
  The counters are Go \<open>int\<close>s, each at most the length of \<open>Results\<close>, which as the
  length of a slice is below \<open>2 ^ 63\<close>: they do not wrap, and are \<open>int\<close> here. The field
  \<open>Recoverable\<close> of the summary is \<open>RecoverableCount\<close>, the name being taken by the field
  of \<open>ProcessingError\<close>. Reading a Go map at a missing key gives zero (\<open>count_of\<close>).
\<close>

record ErrorSummary =
  Total :: int
  ByCategory :: "ErrorCategory \<rightharpoonup> int"
  ByType :: "ErrorType \<rightharpoonup> int"
  RecoverableCount :: int
  Results :: "ProcessingResult list"

definition count_of :: "('k \<rightharpoonup> int) \<Rightarrow> 'k \<Rightarrow> int" where
  "count_of m k = (case m k of None \<Rightarrow> 0 | Some n \<Rightarrow> n)"

definition NewErrorSummary :: ErrorSummary where
  "NewErrorSummary =
     \<lparr>Total = 0, ByCategory = Map.empty, ByType = Map.empty, RecoverableCount = 0,
      Results = []\<rparr>"

definition AddResult :: "ErrorSummary \<Rightarrow> ProcessingResult \<Rightarrow> ErrorSummary" where
  "AddResult s result =
     (let s1 = s\<lparr>Results := Results s @ [result]\<rparr> in
      case ProcessingResult.Error result of
        None \<Rightarrow> s1
      | Some e \<Rightarrow>
          s1\<lparr>Total := Total s1 + 1,
             ByCategory := (ByCategory s1)(Category e \<mapsto> count_of (ByCategory s1) (Category e) + 1),
             ByType := (ByType s1)(Type e \<mapsto> count_of (ByType s1) (Type e) + 1),
             RecoverableCount :=
               (if Recoverable e then RecoverableCount s1 + 1 else RecoverableCount s1)\<rparr>)"

section \<open>Package cmd: the API mode (internal/cmd/root.go)\<close>

text \<open>
  A panic of the Go runtime is a value: the functions that can dereference a nil pointer
  or assign into a nil map return \<open>panic + 'a\<close>.
\<close>

datatype panic = NilPointerDereference | NilMapAssignment

text \<open>
  \<open>processRepositoryAPIWithResult\<close> (lines 648-686). The remote call
  \<open>harnessClient.CreateComponent(ctx, component)\<close> is outside the function: its returned
  \<open>error\<close> is the argument \<open>createErr\<close>, and \<open>fullName\<close> is \<open>repo.FullName\<close>.
\<close>

definition processRepositoryAPIWithResult ::
  "(string \<Rightarrow> string) \<Rightarrow> go_error option \<Rightarrow> string \<Rightarrow> panic + ProcessingResult" where
  "processRepositoryAPIWithResult ToLower createErr fullName =
     (case createErr of
        Some err \<Rightarrow>
          (case CategorizeError ToLower (Some err) fullName of
             None \<Rightarrow> Inl NilPointerDereference
           | Some procErr \<Rightarrow>
               if Type procErr = ErrorTypeEntityExists
               then Inr \<lparr>Repository = fullName, Success = False, Error = Some procErr,
                         Message = ''Component already exists'', Skipped = True,
                         Action = ''skipped''\<rparr>
               else Inr \<lparr>Repository = fullName, Success = False, Error = Some procErr,
                         Message = ''Component creation failed'', Skipped = False,
                         Action = ''failed''\<rparr>)
      | None \<Rightarrow>
          Inr \<lparr>Repository = fullName, Success = True, Error = None,
               Message = ''Component created successfully'', Skipped = False,
               Action = ''created''\<rparr>)"

text \<open>
  \<open>processAPIMode\<close>, lines 508-522: the part after the goroutines are launched. Its
  argument is the sequence of results received from the \<open>results\<close> channel, in the order
  of arrival, one per repository; which order that is, the scheduler decides.
\<close>

definition processAPIMode_summary :: "ProcessingResult list \<Rightarrow> ErrorSummary" where
  "processAPIMode_summary received = foldl AddResult NewErrorSummary received"

definition processAPIMode :: "ProcessingResult list \<Rightarrow> go_error option" where
  "processAPIMode received =
     (let summary = processAPIMode_summary received in
      if Total summary > 0
      then Some (PlainError (''encountered '' @ show_int (Total summary)
                               @ '' errors during API processing''))
      else None)"

subsection \<open>sanitizeYAMLIdentifiers\<close>

text \<open>
  Go strings are byte sequences, and so is \<open>string\<close>. \<open>strings.TrimSpace\<close> removes the
  leading and the trailing runes that \<open>unicode.IsSpace\<close> accepts. The decoder reads such a
  rune at the front (or at the back) of a string exactly when the string starts (or
  ends) with the rune's UTF-8 encoding, so trimming is the repeated removal of one of
  the encodings below: U+0009 to U+000D, U+0020, U+0085, U+00A0, U+1680, U+2000 to
  U+200A, U+2028, U+2029, U+202F, U+205F and U+3000.
\<close>

definition space_encodings :: "string list" where
  "space_encodings =
     [[CHR 0x09], [CHR 0x0A], [CHR 0x0B], [CHR 0x0C], [CHR 0x0D], [CHR 0x20],
      [CHR 0xC2, CHR 0x85], [CHR 0xC2, CHR 0xA0],
      [CHR 0xE1, CHR 0x9A, CHR 0x80],
      [CHR 0xE2, CHR 0x80, CHR 0x80], [CHR 0xE2, CHR 0x80, CHR 0x81],
      [CHR 0xE2, CHR 0x80, CHR 0x82], [CHR 0xE2, CHR 0x80, CHR 0x83],
      [CHR 0xE2, CHR 0x80, CHR 0x84], [CHR 0xE2, CHR 0x80, CHR 0x85],
      [CHR 0xE2, CHR 0x80, CHR 0x86], [CHR 0xE2, CHR 0x80, CHR 0x87],
      [CHR 0xE2, CHR 0x80, CHR 0x88], [CHR 0xE2, CHR 0x80, CHR 0x89],
      [CHR 0xE2, CHR 0x80, CHR 0x8A],
      [CHR 0xE2, CHR 0x80, CHR 0xA8], [CHR 0xE2, CHR 0x80, CHR 0xA9],
      [CHR 0xE2, CHR 0x80, CHR 0xAF], [CHR 0xE2, CHR 0x81, CHR 0x9F],
      [CHR 0xE3, CHR 0x80, CHR 0x80]]"

text \<open>Removing, as long as there is one, a leading occurrence of one of \<open>toks\<close>.\<close>

function strip_leading :: "string list \<Rightarrow> string \<Rightarrow> string" where
  "strip_leading toks s =
     (case find (\<lambda>t. t \<noteq> [] \<and> prefix t s) toks of
        None \<Rightarrow> s
      | Some t \<Rightarrow> strip_leading toks (drop (length t) s))"
  by pat_completeness auto
termination
proof (relation "measure (\<lambda>(toks, s). length s)")
  show "wf (measure (\<lambda>(toks, s). length s))" by simp
next
  fix toks :: "string list" and s t :: string
  assume "find (\<lambda>t. t \<noteq> [] \<and> prefix t s) toks = Some t"
  then have "t \<noteq> []" and "prefix t s"
    by (auto simp: find_Some_iff)
  then have "s \<noteq> []" by auto
  with \<open>t \<noteq> []\<close> show "((toks, drop (length t) s), (toks, s)) \<in> measure (\<lambda>(toks, s). length s)"
    by simp
qed

definition TrimSpace :: "string \<Rightarrow> string" where
  "TrimSpace s =
     rev (strip_leading (map rev space_encodings) (rev (strip_leading space_encodings s)))"

text \<open>
  \<open>strings.Split(s, "\n")\<close> and \<open>strings.Join(lines, "\n")\<close>. The split of any string
  has at least one line, so the first branch of the inner \<open>case\<close> is never taken.
\<close>

fun Split_newline :: "string \<Rightarrow> string list" where
  "Split_newline [] = [[]]"
| "Split_newline (c # cs) =
     (if c = CHR 0x0A then [] # Split_newline cs
      else (case Split_newline cs of [] \<Rightarrow> [[c]] | l # ls \<Rightarrow> (c # l) # ls))"

fun Join_newline :: "string list \<Rightarrow> string" where
  "Join_newline [] = []"
| "Join_newline [l] = l"
| "Join_newline (l # l' # ls) = l @ [CHR 0x0A] @ Join_newline (l' # ls)"

text \<open>\<open>strings.SplitN(line, ":", 2)\<close>: cut at the first colon, if there is one.\<close>

definition SplitN2_colon :: "string \<Rightarrow> string list" where
  "SplitN2_colon line =
     (if CHR '':'' \<in> set line
      then [takeWhile (\<lambda>c. c \<noteq> CHR '':'') line, tl (dropWhile (\<lambda>c. c \<noteq> CHR '':'') line)]
      else [line])"

text \<open>\<open>strings.ReplaceAll(valuePart, "-", "_")\<close>.\<close>

definition ReplaceAll_hyphen :: "string \<Rightarrow> string" where
  "ReplaceAll_hyphen valuePart = map (\<lambda>c. if c = CHR ''-'' then CHR ''_'' else c) valuePart"

text \<open>The body of the loop of \<open>sanitizeYAMLIdentifiers\<close>: what becomes of one line.\<close>

definition sanitize_line :: "string \<Rightarrow> string" where
  "sanitize_line line =
     (if prefix ''identifier:'' (TrimSpace line)
      then (case SplitN2_colon line of
              [fieldPart, rest] \<Rightarrow> fieldPart @ '': '' @ ReplaceAll_hyphen (TrimSpace rest)
            | _ \<Rightarrow> line)
      else line)"

definition sanitizeYAMLIdentifiers :: "string \<Rightarrow> string" where
  "sanitizeYAMLIdentifiers yamlContent =
     Join_newline (map sanitize_line (Split_newline yamlContent))"

section \<open>Package state: the ledger (internal/state/manager.go)\<close>

subsection \<open>Time\<close>

text \<open>
  A \<open>time.Time\<close> is an instant, counted in nanoseconds; a \<open>time.Duration\<close> is a signed
  64-bit count of nanoseconds. \<open>t.Sub(u)\<close> saturates at the least and the greatest
  duration. \<open>time.Since(t)\<close> is \<open>time.Now().Sub(t)\<close>; the reading of the clock is the
  argument \<open>now\<close>. Monotonic clock readings are not modelled.
\<close>

type_synonym Time = int
type_synonym Duration = int

definition Hour :: Duration where
  "Hour = 3600000000000"

definition minDuration :: Duration where
  "minDuration = - (2 ^ 63)"

definition maxDuration :: Duration where
  "maxDuration = 2 ^ 63 - 1"

definition Sub :: "Time \<Rightarrow> Time \<Rightarrow> Duration" where
  "Sub t u =
     (if minDuration \<le> t - u \<and> t - u \<le> maxDuration then t - u
      else if t < u then minDuration else maxDuration)"

definition Since :: "Time \<Rightarrow> Time \<Rightarrow> Duration" where
  "Since now t = Sub now t"

definition After :: "Time \<Rightarrow> Time \<Rightarrow> bool" where
  "After t u = (u < t)"

text \<open>The zero \<open>time.Time\<close>: 1 January of year 1, in nanoseconds before the Unix epoch.\<close>

definition zeroTime :: Time where
  "zeroTime = - 62135596800000000000"

subsection \<open>State and its file\<close>

record RepoState =
  LastProcessed :: Time
  LastCommit :: string
  Status :: string
  Error :: string

text \<open>\<open>ProcessedRepos\<close> is a Go map, which can be nil: \<open>None\<close>.\<close>

record State =
  LastRun :: Time
  ProcessedRepos :: "(string \<rightharpoonup> RepoState) option"

text \<open>The mutex of the \<open>Manager\<close> is left out: each operation runs under it from start to end.\<close>

record Manager =
  filePath :: string
  state :: State

text \<open>
  What a file holds is either the bytes \<open>json.MarshalIndent\<close> makes of a \<open>State\<close>, which
  \<open>json.Unmarshal\<close> decodes to that \<open>State\<close> again (a file without \<open>processed_repos\<close>,
  or with \<open>null\<close> there, decodes to a \<open>State\<close> whose map is nil), or bytes that
  \<open>json.Unmarshal\<close> rejects. The encoder and the decoder are Go library code; that the
  one inverts the other is taken for granted here (it holds for strings of valid UTF-8).
\<close>

datatype file_data = Marshalled State | Unparsable

text \<open>
  The world outside the process: the files (\<open>None\<close>: \<open>ioutil.ReadFile\<close> fails), the
  paths at which \<open>ioutil.WriteFile\<close> fails, and the clock as the sequence of its readings
  with the number of readings taken so far. A write that fails leaves the files as they
  were in the model; nothing below depends on what it leaves.
\<close>

record World =
  files :: "string \<rightharpoonup> file_data"
  write_fails :: "string \<Rightarrow> bool"
  clock :: "nat \<Rightarrow> Time"
  ticks :: nat

definition time_Now :: "World \<Rightarrow> Time \<times> World" where
  "time_Now w = (clock w (ticks w), w\<lparr>ticks := Suc (ticks w)\<rparr>)"

text \<open>
  The errors the state package returns, by their \<open>fmt.Errorf\<close> texts: "failed to read
  import file", "failed to unmarshal imported state", "invalid state file: missing
  processed_repos", "failed to write state file". \<open>json.MarshalIndent\<close> does not fail on
  a \<open>State\<close> whose times the clock or the decoder produced.
\<close>

datatype state_error = ReadFailed | UnmarshalFailed | MissingProcessedRepos | WriteFailed

definition saveStateUnsafe :: "Manager \<times> World \<Rightarrow> state_error option \<times> Manager \<times> World" where
  "saveStateUnsafe mw =
     (case mw of (m, w) \<Rightarrow>
        (case time_Now w of (now, w1) \<Rightarrow>
           (let m1 = m\<lparr>state := (state m)\<lparr>LastRun := now\<rparr>\<rparr> in
            if write_fails w1 (filePath m1) then (Some WriteFailed, m1, w1)
            else (None, m1, w1\<lparr>files := (files w1)(filePath m1 \<mapsto> Marshalled (state m1))\<rparr>))))"

text \<open>Reading a Go map at a key: a nil map has no key.\<close>

definition map_index :: "('k \<rightharpoonup> 'v) option \<Rightarrow> 'k \<Rightarrow> 'v option" where
  "map_index mp k = (case mp of None \<Rightarrow> None | Some f \<Rightarrow> f k)"

subsection \<open>ShouldSkip\<close>

definition ShouldSkip :: "Time \<Rightarrow> Manager \<Rightarrow> string \<Rightarrow> Time \<Rightarrow> bool" where
  "ShouldSkip now m repoFullName lastPushed =
     (case map_index (ProcessedRepos (state m)) repoFullName of
        None \<Rightarrow> False
      | Some repoState \<Rightarrow>
          if Status repoState = ''error''
          then (if Since now (LastProcessed repoState) < 24 * Hour then True else False)
          else if Status repoState = ''success''
          then (if After lastPushed (LastProcessed repoState) then False
                else if Since now (LastProcessed repoState) < 7 * 24 * Hour then True
                else False)
          else False)"

subsection \<open>The record operations\<close>

text \<open>
  Each returns normally or panics: assigning into a nil map panics, and so does
  \<open>err.Error()\<close> on a nil \<open>error\<close>. The error \<open>saveStateUnsafe\<close> returns is logged and
  dropped.
\<close>

definition RecordSuccess ::
  "string \<Rightarrow> Time \<Rightarrow> string \<Rightarrow> Manager \<times> World \<Rightarrow> panic + Manager \<times> World" where
  "RecordSuccess repoFullName lastPushed mode mw =
     (case mw of (m, w) \<Rightarrow>
        (case time_Now w of (now, w1) \<Rightarrow>
           (case ProcessedRepos (state m) of
              None \<Rightarrow> Inl NilMapAssignment
            | Some repos \<Rightarrow>
                (let entry = \<lparr>LastProcessed = now, LastCommit = '''', Status = ''success'',
                              Error = ''''\<rparr>;
                     m1 = m\<lparr>state := (state m)\<lparr>ProcessedRepos :=
                                                   Some (repos(repoFullName \<mapsto> entry))\<rparr>\<rparr>
                 in Inr (snd (saveStateUnsafe (m1, w1)))))))"

definition RecordError ::
  "string \<Rightarrow> go_error option \<Rightarrow> Manager \<times> World \<Rightarrow> panic + Manager \<times> World" where
  "RecordError repoFullName err mw =
     (case mw of (m, w) \<Rightarrow>
        (case err of
           None \<Rightarrow> Inl NilPointerDereference
         | Some e \<Rightarrow>
             (let errorMsg0 = ErrorString e;
                  errorMsg = (if length errorMsg0 > 500 then take 500 errorMsg0 @ ''...''
                              else errorMsg0)
              in case time_Now w of (now, w1) \<Rightarrow>
                   (case ProcessedRepos (state m) of
                      None \<Rightarrow> Inl NilMapAssignment
                    | Some repos \<Rightarrow>
                        (let entry = \<lparr>LastProcessed = now, LastCommit = '''',
                                      Status = ''error'', Error = errorMsg\<rparr>;
                             m1 = m\<lparr>state := (state m)\<lparr>ProcessedRepos :=
                                                   Some (repos(repoFullName \<mapsto> entry))\<rparr>\<rparr>
                         in Inr (snd (saveStateUnsafe (m1, w1))))))))"

definition RecordInProgress :: "string \<Rightarrow> Manager \<times> World \<Rightarrow> panic + Manager \<times> World" where
  "RecordInProgress repoFullName mw =
     (case mw of (m, w) \<Rightarrow>
        (let existing0 =
               (case map_index (ProcessedRepos (state m)) repoFullName of
                  None \<Rightarrow> \<lparr>LastProcessed = zeroTime, LastCommit = '''', Status = '''',
                            Error = ''''\<rparr>
                | Some rs \<Rightarrow> rs)
         in case time_Now w of (now, w1) \<Rightarrow>
              (let existing = existing0\<lparr>LastProcessed := now, Status := ''in_progress'',
                                        RepoState.Error := ''''\<rparr>
               in case ProcessedRepos (state m) of
                    None \<Rightarrow> Inl NilMapAssignment
                  | Some repos \<Rightarrow>
                      Inr (m\<lparr>state := (state m)\<lparr>ProcessedRepos :=
                                                   Some (repos(repoFullName \<mapsto> existing))\<rparr>\<rparr>,
                           w1))))"

subsection \<open>ImportState\<close>

definition ImportState ::
  "string \<Rightarrow> Manager \<times> World \<Rightarrow> state_error option \<times> Manager \<times> World" where
  "ImportState path mw =
     (case mw of (m, w) \<Rightarrow>
        (case files w path of
           None \<Rightarrow> (Some ReadFailed, m, w)
         | Some Unparsable \<Rightarrow> (Some UnmarshalFailed, m, w)
         | Some (Marshalled importedState) \<Rightarrow>
             if ProcessedRepos importedState = None
             then (Some MissingProcessedRepos, m, w)
             else saveStateUnsafe (m\<lparr>state := importedState\<rparr>, w)))"

section \<open>The classification as a rule table\<close>

text \<open>
  The conditions of \<open>CategorizeError\<close>, one predicate on the lower-cased message for each
  \<open>if\<close> of lines 215-252, in the order of the source.
\<close>

definition rule_repository_not_found :: "string \<Rightarrow> bool" where
  "rule_repository_not_found errMsg \<longleftrightarrow> Contains errMsg ''404'' \<and> Contains errMsg ''not found''"

definition rule_forbidden :: "string \<Rightarrow> bool" where
  "rule_forbidden errMsg \<longleftrightarrow> Contains errMsg ''403'' \<and> Contains errMsg ''forbidden''"

definition rule_unauthorized :: "string \<Rightarrow> bool" where
  "rule_unauthorized errMsg \<longleftrightarrow> Contains errMsg ''401'' \<and> Contains errMsg ''unauthorized''"

definition rule_rate_limit :: "string \<Rightarrow> bool" where
  "rule_rate_limit errMsg \<longleftrightarrow> Contains errMsg ''429'' \<or> Contains errMsg ''rate limit''"

definition rule_already_registered :: "string \<Rightarrow> bool" where
  "rule_already_registered errMsg \<longleftrightarrow>
     Contains errMsg ''duplicate_file_import'' \<or> Contains errMsg ''already been imported''"

definition rule_entity_exists :: "string \<Rightarrow> bool" where
  "rule_entity_exists errMsg \<longleftrightarrow> Contains errMsg ''already exists'' \<or> Contains errMsg ''duplicate''"

definition rule_catalog_file_not_found :: "string \<Rightarrow> bool" where
  "rule_catalog_file_not_found errMsg \<longleftrightarrow>
     Contains errMsg ''catalog-info.yaml'' \<and> Contains errMsg ''not found''"

definition rule_pr_exists :: "string \<Rightarrow> bool" where
  "rule_pr_exists errMsg \<longleftrightarrow> Contains errMsg ''pull request'' \<and> Contains errMsg ''already''"

text \<open>
  The specification's reading of the classifier: a prioritised list of
  (predicate, category, type), of which the first whose predicate holds decides, and
  the unknown category when none does. \<open>CategorizeError\<close> is compared with it below.
\<close>

definition classification_rules :: "((string \<Rightarrow> bool) \<times> ErrorCategory \<times> ErrorType) list" where
  "classification_rules =
     [(rule_repository_not_found, ErrorCategoryRepository, ErrorTypeRepositoryNotFound),
      (rule_forbidden, ErrorCategoryAuthentication, ErrorTypeForbidden),
      (rule_unauthorized, ErrorCategoryAuthentication, ErrorTypeUnauthorized),
      (rule_rate_limit, ErrorCategoryNetwork, ErrorTypeRateLimit),
      (rule_already_registered, ErrorCategoryEntity, ErrorTypeEntityAlreadyRegistered),
      (rule_entity_exists, ErrorCategoryEntity, ErrorTypeEntityExists),
      (rule_catalog_file_not_found, ErrorCategoryRepository, ErrorTypeCatalogFileNotFound),
      (rule_pr_exists, ErrorCategoryPR, ErrorTypePRExists)]"

fun first_match ::
  "((string \<Rightarrow> bool) \<times> ErrorCategory \<times> ErrorType) list \<Rightarrow> string
     \<Rightarrow> ErrorCategory \<times> ErrorType" where
  "first_match [] m = (ErrorCategoryUnknown, ErrorTypeUnknown)"
| "first_match ((p, c, t) # rules) m = (if p m then (c, t) else first_match rules m)"

text \<open>The two struct literals of \<open>CategorizeError\<close> (lines 219-227 and 255-263), named.\<close>

definition forbidden_error :: "string \<Rightarrow> go_error option \<Rightarrow> ProcessingError" where
  "forbidden_error repo err =
     ProcessingError ErrorCategoryAuthentication ErrorTypeForbidden
       ''access forbidden'' repo err False
       (''Access to repository '' @ [CHR 0x27] @ repo @ [CHR 0x27]
          @ '' is forbidden. Check your GitHub App permissions.'')"

definition unknown_error :: "string \<Rightarrow> string \<Rightarrow> go_error option \<Rightarrow> ProcessingError" where
  "unknown_error msg repo err =
     ProcessingError ErrorCategoryUnknown ErrorTypeUnknown msg repo err False
       (''An unexpected error occurred while processing ''
          @ [CHR 0x27] @ repo @ [CHR 0x27] @ '': '' @ msg)"

section \<open>A ledger and a world to run the operations on\<close>

text \<open>
  A ledger with one repository that succeeded a day before the instant
  \<open>1700000000000000000\<close>, one that failed an hour before it and one left in progress
  at that time; a world in which the
  state file holds that ledger, two more files are not importable, every write
  succeeds, and the clock starts at that instant.
\<close>

definition example_clock :: "nat \<Rightarrow> Time" where
  "example_clock n = 1700000000000000000 + 1000000 * int n"

definition example_state :: State where
  "example_state =
     \<lparr>LastRun = 1699996400000000000,
      ProcessedRepos = Some
        [''org/done'' \<mapsto> \<lparr>LastProcessed = 1699913600000000000, LastCommit = '''',
                             Status = ''success'', Error = ''''\<rparr>,
         ''org/failed'' \<mapsto> \<lparr>LastProcessed = 1699996400000000000, LastCommit = '''',
                               Status = ''error'', Error = ''connection reset''\<rparr>,
         ''org/running'' \<mapsto> \<lparr>LastProcessed = 1699996400000000000, LastCommit = '''',
                                Status = ''in_progress'', Error = ''''\<rparr>]\<rparr>"

definition example_manager :: Manager where
  "example_manager = \<lparr>filePath = ''state.json'', state = example_state\<rparr>"

definition example_world :: World where
  "example_world =
     \<lparr>files = [''state.json'' \<mapsto> Marshalled example_state,
               ''garbage.json'' \<mapsto> Unparsable,
               ''no_repos.json'' \<mapsto> Marshalled \<lparr>LastRun = 0, ProcessedRepos = None\<rparr>],
      write_fails = (\<lambda>path. False),
      clock = example_clock,
      ticks = 0\<rparr>"

section \<open>Notions for the properties of the sanitizer\<close>

text \<open>The bytes of the space encodings.\<close>

definition space_bytes :: "char set" where
  "space_bytes = \<Union> (set ` set space_encodings)"

text \<open>A string is trimmed when it neither starts nor ends with a space encoding.\<close>

definition trimmed :: "string \<Rightarrow> bool" where
  "trimmed x \<longleftrightarrow>
     find (\<lambda>t. t \<noteq> [] \<and> prefix t x) space_encodings = None
     \<and> find (\<lambda>t. t \<noteq> [] \<and> prefix t (rev x)) (map rev space_encodings) = None"

section \<open>Properties\<close>

subsection \<open>CategorizeError\<close>

lemmas ErrorType_defs =
  ErrorTypeRepositoryNotFound_def ErrorTypeCatalogFileNotFound_def ErrorTypeEntityExists_def
  ErrorTypeEntityAlreadyRegistered_def ErrorTypeUnauthorized_def ErrorTypeForbidden_def
  ErrorTypeRateLimit_def ErrorTypePRExists_def ErrorTypeUnknown_def

lemmas New_defs = NewRepositoryNotFoundError_def NewEntityExistsError_def
  NewEntityAlreadyRegisteredError_def NewCatalogFileNotFoundError_def NewPRExistsError_def
  NewUnauthorizedError_def NewRateLimitError_def

lemmas rule_defs = rule_repository_not_found_def rule_forbidden_def rule_unauthorized_def
  rule_rate_limit_def rule_already_registered_def rule_entity_exists_def
  rule_catalog_file_not_found_def rule_pr_exists_def

lemma ErrorType_distinct:
  "ErrorTypeRepositoryNotFound \<noteq> ErrorTypeUnauthorized"
  "ErrorTypeRepositoryNotFound \<noteq> ErrorTypeRateLimit"
  "ErrorTypeForbidden \<noteq> ErrorTypeUnauthorized"
  "ErrorTypeForbidden \<noteq> ErrorTypeRateLimit"
  "ErrorTypeEntityAlreadyRegistered \<noteq> ErrorTypeUnauthorized"
  "ErrorTypeEntityAlreadyRegistered \<noteq> ErrorTypeRateLimit"
  "ErrorTypeEntityExists \<noteq> ErrorTypeUnauthorized"
  "ErrorTypeEntityExists \<noteq> ErrorTypeRateLimit"
  "ErrorTypeCatalogFileNotFound \<noteq> ErrorTypeUnauthorized"
  "ErrorTypeCatalogFileNotFound \<noteq> ErrorTypeRateLimit"
  "ErrorTypePRExists \<noteq> ErrorTypeUnauthorized"
  "ErrorTypePRExists \<noteq> ErrorTypeRateLimit"
  "ErrorTypeUnknown \<noteq> ErrorTypeUnauthorized"
  "ErrorTypeUnknown \<noteq> ErrorTypeRateLimit"
  "ErrorTypeRepositoryNotFound \<noteq> ErrorTypeEntityExists"
  "ErrorTypeForbidden \<noteq> ErrorTypeEntityExists"
  "ErrorTypeUnauthorized \<noteq> ErrorTypeEntityExists"
  "ErrorTypeRateLimit \<noteq> ErrorTypeEntityExists"
  "ErrorTypeEntityAlreadyRegistered \<noteq> ErrorTypeEntityExists"
  by (simp_all add: ErrorType_defs)

text \<open>On an error that is not a \<open>*ProcessingError\<close> the function is its chain of rules.\<close>

lemma CategorizeError_plain:
  "CategorizeError ToLower (Some (PlainError msg)) repo =
     Some (if rule_repository_not_found (ToLower msg)
             then NewRepositoryNotFoundError repo (Some (PlainError msg))
           else if rule_forbidden (ToLower msg)
             then forbidden_error repo (Some (PlainError msg))
           else if rule_unauthorized (ToLower msg)
             then NewUnauthorizedError ''GitHub authentication failed'' (Some (PlainError msg))
           else if rule_rate_limit (ToLower msg)
             then NewRateLimitError (Some (PlainError msg))
           else if rule_already_registered (ToLower msg)
             then NewEntityAlreadyRegisteredError repo (Some (PlainError msg))
           else if rule_entity_exists (ToLower msg)
             then NewEntityExistsError repo ''unknown'' (Some (PlainError msg))
           else if rule_catalog_file_not_found (ToLower msg)
             then NewCatalogFileNotFoundError repo (Some (PlainError msg))
           else if rule_pr_exists (ToLower msg)
             then NewPRExistsError repo 0 (Some (PlainError msg))
           else unknown_error msg repo (Some (PlainError msg)))"
  unfolding CategorizeError_def Let_def rule_defs forbidden_error_def unknown_error_def
  by (simp only: option.case go_error.case if_distrib [of Some])

lemma New_sel [simp]:
  "Category (NewRepositoryNotFoundError repo c) = ErrorCategoryRepository"
  "Type (NewRepositoryNotFoundError repo c) = ErrorTypeRepositoryNotFound"
  "ProcessingError.Repository (NewRepositoryNotFoundError repo c) = repo"
  "Category (forbidden_error repo c) = ErrorCategoryAuthentication"
  "Type (forbidden_error repo c) = ErrorTypeForbidden"
  "ProcessingError.Repository (forbidden_error repo c) = repo"
  "Category (NewUnauthorizedError m c) = ErrorCategoryAuthentication"
  "Type (NewUnauthorizedError m c) = ErrorTypeUnauthorized"
  "ProcessingError.Repository (NewUnauthorizedError m c) = []"
  "Category (NewRateLimitError c) = ErrorCategoryNetwork"
  "Type (NewRateLimitError c) = ErrorTypeRateLimit"
  "ProcessingError.Repository (NewRateLimitError c) = []"
  "Category (NewEntityAlreadyRegisteredError repo c) = ErrorCategoryEntity"
  "Type (NewEntityAlreadyRegisteredError repo c) = ErrorTypeEntityAlreadyRegistered"
  "ProcessingError.Repository (NewEntityAlreadyRegisteredError repo c) = repo"
  "Category (NewEntityExistsError repo i c) = ErrorCategoryEntity"
  "Type (NewEntityExistsError repo i c) = ErrorTypeEntityExists"
  "ProcessingError.Repository (NewEntityExistsError repo i c) = repo"
  "Category (NewCatalogFileNotFoundError repo c) = ErrorCategoryRepository"
  "Type (NewCatalogFileNotFoundError repo c) = ErrorTypeCatalogFileNotFound"
  "ProcessingError.Repository (NewCatalogFileNotFoundError repo c) = repo"
  "Category (NewPRExistsError repo n c) = ErrorCategoryPR"
  "Type (NewPRExistsError repo n c) = ErrorTypePRExists"
  "ProcessingError.Repository (NewPRExistsError repo n c) = repo"
  "Category (unknown_error m repo c) = ErrorCategoryUnknown"
  "Type (unknown_error m repo c) = ErrorTypeUnknown"
  "ProcessingError.Repository (unknown_error m repo c) = repo"
  by (simp_all add: New_defs forbidden_error_def unknown_error_def)

lemma CategorizeError_plain_first_match:
  "\<exists>p. CategorizeError ToLower (Some (PlainError msg)) repo = Some p
       \<and> (Category p, Type p) = first_match classification_rules (ToLower msg)"
  unfolding CategorizeError_plain classification_rules_def by simp

lemma CategorizeError_total:
  "\<exists>p. CategorizeError ToLower (Some e) repo = Some p"
  by (cases e) (simp_all add: CategorizeError_plain, simp add: CategorizeError_def)

lemma CategorizeError_structured:
  "CategorizeError ToLower (Some (ProcError p)) repo =
     Some (if ProcessingError.Repository p = [] then set_Repository repo p else p)"
  by (simp add: CategorizeError_def)

lemma Repository_set_Repository: "ProcessingError.Repository (set_Repository repo p) = repo"
  by (cases p) simp

lemma set_Repository_eq_iff:
  "set_Repository repo p = p \<longleftrightarrow> ProcessingError.Repository p = repo"
  by (cases p) auto

text \<open>
  What the rules leave in the \<open>Repository\<close> field: the repository passed in, except
  under the two rules whose constructors take none.
\<close>

lemma CategorizeError_plain_Repository:
  assumes "CategorizeError ToLower (Some (PlainError msg)) repo = Some q"
  shows "ProcessingError.Repository q =
           (if Type q = ErrorTypeUnauthorized \<or> Type q = ErrorTypeRateLimit then [] else repo)"
proof -
  have "Some q = CategorizeError ToLower (Some (PlainError msg)) repo"
    using assms by simp
  then show ?thesis
    unfolding CategorizeError_plain
    by (simp add: ErrorType_distinct split: if_splits)
qed

text \<open>
  Claim C5, as amended. On an error that is not a \<open>*ProcessingError\<close>, \<open>CategorizeError\<close>
  is the rule table read first match first, on the lower-cased message. When that
  message contains "duplicate_file_import" or "already been imported", the type is never
  \<open>ENTITY_EXISTS\<close>, and it is \<open>ENTITY_ALREADY_REGISTERED\<close> with category \<open>ENTITY\<close> provided
  none of the four rules tried before (404 and "not found", 403 and "forbidden", 401 and
  "unauthorized", 429 or "rate limit") holds. Every error that is not nil is classified.
\<close>

theorem CategorizeError_first_match_wins:
  "(\<exists>p. CategorizeError ToLower (Some (PlainError msg)) repo = Some p
        \<and> (Category p, Type p) = first_match classification_rules (ToLower msg)
        \<and> (Contains (ToLower msg) ''duplicate_file_import''
             \<or> Contains (ToLower msg) ''already been imported''
           \<longrightarrow> Type p \<noteq> ErrorTypeEntityExists
               \<and> (\<not> (Contains (ToLower msg) ''404'' \<and> Contains (ToLower msg) ''not found'')
                  \<and> \<not> (Contains (ToLower msg) ''403'' \<and> Contains (ToLower msg) ''forbidden'')
                  \<and> \<not> (Contains (ToLower msg) ''401'' \<and> Contains (ToLower msg) ''unauthorized'')
                  \<and> \<not> (Contains (ToLower msg) ''429'' \<or> Contains (ToLower msg) ''rate limit'')
                 \<longrightarrow> Category p = ErrorCategoryEntity
                     \<and> Type p = ErrorTypeEntityAlreadyRegistered)))
   \<and> (\<forall>e. \<exists>p. CategorizeError ToLower (Some e) repo = Some p)"
proof (intro conjI allI)
  obtain p where p: "CategorizeError ToLower (Some (PlainError msg)) repo = Some p"
    and fm: "(Category p, Type p) = first_match classification_rules (ToLower msg)"
    using CategorizeError_plain_first_match by blast
  have dup: "Type p \<noteq> ErrorTypeEntityExists" if "rule_already_registered (ToLower msg)"
    using fm that by (simp add: classification_rules_def ErrorType_distinct split: if_splits)
  have reg: "Category p = ErrorCategoryEntity \<and> Type p = ErrorTypeEntityAlreadyRegistered"
    if "rule_already_registered (ToLower msg)" "\<not> rule_repository_not_found (ToLower msg)"
       "\<not> rule_forbidden (ToLower msg)" "\<not> rule_unauthorized (ToLower msg)"
       "\<not> rule_rate_limit (ToLower msg)"
    using fm that by (simp add: classification_rules_def)
  show "\<exists>p. CategorizeError ToLower (Some (PlainError msg)) repo = Some p
        \<and> (Category p, Type p) = first_match classification_rules (ToLower msg)
        \<and> (Contains (ToLower msg) ''duplicate_file_import''
             \<or> Contains (ToLower msg) ''already been imported''
           \<longrightarrow> Type p \<noteq> ErrorTypeEntityExists
               \<and> (\<not> (Contains (ToLower msg) ''404'' \<and> Contains (ToLower msg) ''not found'')
                  \<and> \<not> (Contains (ToLower msg) ''403'' \<and> Contains (ToLower msg) ''forbidden'')
                  \<and> \<not> (Contains (ToLower msg) ''401'' \<and> Contains (ToLower msg) ''unauthorized'')
                  \<and> \<not> (Contains (ToLower msg) ''429'' \<or> Contains (ToLower msg) ''rate limit'')
                 \<longrightarrow> Category p = ErrorCategoryEntity
                     \<and> Type p = ErrorTypeEntityAlreadyRegistered))"
    using p fm dup reg unfolding rule_defs by blast
next
  fix e show "\<exists>p. CategorizeError ToLower (Some e) repo = Some p"
    by (rule CategorizeError_total)
qed

text \<open>
  The theorem at the message of a second registration of one catalog file, under
  \<open>ToLowerASCII\<close>: no earlier rule holds, and the result is \<open>ENTITY_ALREADY_REGISTERED\<close>.
\<close>

theorem CategorizeError_first_match_wins_witness:
  "Contains (ToLowerASCII ''DUPLICATE_FILE_IMPORT: already exists'')
     ''duplicate_file_import''
   \<and> Contains (ToLowerASCII ''DUPLICATE_FILE_IMPORT: already exists'')
       ''already exists''
   \<and> map_option Type
        (CategorizeError ToLowerASCII
           (Some (PlainError ''DUPLICATE_FILE_IMPORT: already exists''))
           ''org/repo'')
       = Some ErrorTypeEntityAlreadyRegistered"
proof -
  let ?m = "''DUPLICATE_FILE_IMPORT: already exists''"
  have h1: "Contains (ToLowerASCII ?m) ''duplicate_file_import''" by code_simp
  have h2: "Contains (ToLowerASCII ?m) ''already exists''" by code_simp
  have h3: "\<not> (Contains (ToLowerASCII ?m) ''404'' \<and> Contains (ToLowerASCII ?m) ''not found'')"
    by code_simp
  have h4: "\<not> (Contains (ToLowerASCII ?m) ''403'' \<and> Contains (ToLowerASCII ?m) ''forbidden'')"
    by code_simp
  have h5: "\<not> (Contains (ToLowerASCII ?m) ''401'' \<and> Contains (ToLowerASCII ?m) ''unauthorized'')"
    by code_simp
  have h6: "\<not> (Contains (ToLowerASCII ?m) ''429'' \<or> Contains (ToLowerASCII ?m) ''rate limit'')"
    by code_simp
  from CategorizeError_first_match_wins [of ToLowerASCII ?m "''org/repo''"]
  obtain p where "CategorizeError ToLowerASCII (Some (PlainError ?m)) ''org/repo'' = Some p"
    and "Type p = ErrorTypeEntityAlreadyRegistered"
    using h1 h3 h4 h5 h6 by blast
  then show ?thesis using h1 h2 by simp
qed

text \<open>
  The claim as it was stated fails where an earlier rule holds as well: this message
  contains "duplicate_file_import" and "already exists", and also "429" (inside a
  request identifier), and is classified \<open>NETWORK\<close>, \<open>RATE_LIMIT\<close>.
\<close>

theorem CategorizeError_priority_counterexample:
  "Contains (ToLowerASCII
       ''DUPLICATE_FILE_IMPORT: already exists (id a429f)'')
     ''duplicate_file_import''
   \<and> Contains (ToLowerASCII
       ''DUPLICATE_FILE_IMPORT: already exists (id a429f)'')
     ''already exists''
   \<and> map_option Category
        (CategorizeError ToLowerASCII
           (Some (PlainError
              ''DUPLICATE_FILE_IMPORT: already exists (id a429f)''))
           ''org/repo'')
       = Some ErrorCategoryNetwork
   \<and> map_option Type
        (CategorizeError ToLowerASCII
           (Some (PlainError
              ''DUPLICATE_FILE_IMPORT: already exists (id a429f)''))
           ''org/repo'')
       = Some ErrorTypeRateLimit
   \<and> ErrorTypeRateLimit \<noteq> ErrorTypeEntityAlreadyRegistered"
  by code_simp

text \<open>
  Claim C6, as amended. A \<open>*ProcessingError\<close> comes back unchanged but for an empty
  \<open>Repository\<close>, which becomes the repository passed in; so classifying a structured
  error twice is classifying it once. For an error that is not structured, the second
  call changes nothing but an empty \<open>Repository\<close>: it returns the result of the first
  exactly when the repository passed in is empty or the first result is neither
  \<open>UNAUTHORIZED\<close> nor \<open>RATE_LIMIT\<close>, the two types whose constructors leave the field empty.
\<close>

theorem CategorizeError_reclassify:
  "(\<forall>p. CategorizeError ToLower (Some (ProcError p)) repo
          = Some (if ProcessingError.Repository p = '''' then set_Repository repo p else p))
   \<and> (\<forall>p. \<exists>q. CategorizeError ToLower (Some (ProcError p)) repo = Some q
             \<and> CategorizeError ToLower (Some (ProcError q)) repo = Some q)
   \<and> (\<forall>e. \<exists>q. CategorizeError ToLower (Some e) repo = Some q
             \<and> CategorizeError ToLower (Some (ProcError q)) repo
                 = Some (if ProcessingError.Repository q = '''' then set_Repository repo q else q))
   \<and> (\<forall>msg. \<exists>q. CategorizeError ToLower (Some (PlainError msg)) repo = Some q
             \<and> (CategorizeError ToLower (Some (ProcError q)) repo = Some q
                  \<longleftrightarrow> repo = ''''
                      \<or> (Type q \<noteq> ErrorTypeUnauthorized \<and> Type q \<noteq> ErrorTypeRateLimit)))"
proof (intro conjI allI)
  fix p
  show "CategorizeError ToLower (Some (ProcError p)) repo
          = Some (if ProcessingError.Repository p = '''' then set_Repository repo p else p)"
    by (rule CategorizeError_structured)
  show "\<exists>q. CategorizeError ToLower (Some (ProcError p)) repo = Some q
             \<and> CategorizeError ToLower (Some (ProcError q)) repo = Some q"
    by (simp add: CategorizeError_structured Repository_set_Repository set_Repository_eq_iff)
next
  fix e
  obtain q where "CategorizeError ToLower (Some e) repo = Some q"
    using CategorizeError_total by blast
  then show "\<exists>q. CategorizeError ToLower (Some e) repo = Some q
             \<and> CategorizeError ToLower (Some (ProcError q)) repo
                 = Some (if ProcessingError.Repository q = '''' then set_Repository repo q else q)"
    by (simp add: CategorizeError_structured)
next
  fix msg
  obtain q where q: "CategorizeError ToLower (Some (PlainError msg)) repo = Some q"
    using CategorizeError_total by blast
  have r: "ProcessingError.Repository q =
           (if Type q = ErrorTypeUnauthorized \<or> Type q = ErrorTypeRateLimit then [] else repo)"
    using q by (rule CategorizeError_plain_Repository)
  have "CategorizeError ToLower (Some (ProcError q)) repo = Some q
          \<longleftrightarrow> repo = '''' \<or> (Type q \<noteq> ErrorTypeUnauthorized \<and> Type q \<noteq> ErrorTypeRateLimit)"
    using r by (auto simp add: CategorizeError_structured set_Repository_eq_iff)
  with q show "\<exists>q. CategorizeError ToLower (Some (PlainError msg)) repo = Some q
             \<and> (CategorizeError ToLower (Some (ProcError q)) repo = Some q
                  \<longleftrightarrow> repo = ''''
                      \<or> (Type q \<noteq> ErrorTypeUnauthorized \<and> Type q \<noteq> ErrorTypeRateLimit))"
    by blast
qed

text \<open>
  The theorem at two messages and the repository "org/repo": one classified
  \<open>ENTITY_EXISTS\<close>, which a second call returns as it is, and one classified
  \<open>RATE_LIMIT\<close>, which a second call changes.
\<close>

theorem CategorizeError_reclassify_witness:
  "(\<exists>q. CategorizeError ToLowerASCII (Some (PlainError ''entity already exists'')) ''org/repo''
           = Some q
        \<and> Type q = ErrorTypeEntityExists
        \<and> CategorizeError ToLowerASCII (Some (ProcError q)) ''org/repo'' = Some q)
   \<and> (\<exists>q. CategorizeError ToLowerASCII (Some (PlainError ''429 Too Many Requests'')) ''org/repo''
           = Some q
        \<and> Type q = ErrorTypeRateLimit
        \<and> CategorizeError ToLowerASCII (Some (ProcError q)) ''org/repo'' \<noteq> Some q)"
proof -
  have t1: "map_option Type
              (CategorizeError ToLowerASCII (Some (PlainError ''entity already exists''))
                 ''org/repo'') = Some ErrorTypeEntityExists"
    by code_simp
  have t2: "map_option Type
              (CategorizeError ToLowerASCII (Some (PlainError ''429 Too Many Requests''))
                 ''org/repo'') = Some ErrorTypeRateLimit"
    by code_simp
  have ne: "''org/repo'' \<noteq> ''''" by simp
  note inst = CategorizeError_reclassify [of ToLowerASCII "''org/repo''"]
  from inst obtain q1 where
    "CategorizeError ToLowerASCII (Some (PlainError ''entity already exists'')) ''org/repo''
       = Some q1"
    "CategorizeError ToLowerASCII (Some (ProcError q1)) ''org/repo'' = Some q1
       \<longleftrightarrow> ''org/repo'' = ''''
           \<or> (Type q1 \<noteq> ErrorTypeUnauthorized \<and> Type q1 \<noteq> ErrorTypeRateLimit)"
    by blast
  moreover from inst obtain q2 where
    "CategorizeError ToLowerASCII (Some (PlainError ''429 Too Many Requests'')) ''org/repo''
       = Some q2"
    "CategorizeError ToLowerASCII (Some (ProcError q2)) ''org/repo'' = Some q2
       \<longleftrightarrow> ''org/repo'' = ''''
           \<or> (Type q2 \<noteq> ErrorTypeUnauthorized \<and> Type q2 \<noteq> ErrorTypeRateLimit)"
    by blast
  ultimately show ?thesis
    using t1 t2 ne ErrorType_distinct by auto
qed

text \<open>
  The claim as it was stated, that a second call always returns what the first did,
  fails at a rate-limit message: the first result has no repository, the second has.
\<close>

theorem CategorizeError_idempotent_counterexample:
  "CategorizeError ToLowerASCII
     (map_option ProcError
        (CategorizeError ToLowerASCII (Some (PlainError ''429 Too Many Requests'')) ''org/repo''))
     ''org/repo''
   \<noteq> CategorizeError ToLowerASCII (Some (PlainError ''429 Too Many Requests'')) ''org/repo''"
  by code_simp

subsection \<open>The create-entity strategy\<close>

text \<open>
  Claim C8. When \<open>CreateComponent\<close> fails, \<open>processRepositoryAPIWithResult\<close> does not
  panic, and its result carries the classified error; the result is the skip
  (\<open>Skipped\<close>, action "skipped") exactly when the error is classified \<open>ENTITY_EXISTS\<close>,
  and every other failure has action "failed" and is not a skip. In both cases
  \<open>Success\<close> is false.
\<close>

theorem processRepositoryAPIWithResult_failure:
  "\<exists>procErr.
     CategorizeError ToLower (Some err) fullName = Some procErr
     \<and> processRepositoryAPIWithResult ToLower (Some err) fullName =
         Inr \<lparr>Repository = fullName, Success = False, Error = Some procErr,
              Message = (if Type procErr = ErrorTypeEntityExists
                         then ''Component already exists'' else ''Component creation failed''),
              Skipped = (Type procErr = ErrorTypeEntityExists),
              Action = (if Type procErr = ErrorTypeEntityExists
                        then ''skipped'' else ''failed'')\<rparr>"
proof -
  obtain procErr where "CategorizeError ToLower (Some err) fullName = Some procErr"
    using CategorizeError_total by blast
  then show ?thesis
    by (simp add: processRepositoryAPIWithResult_def)
qed

text \<open>
  The theorem at an "already exists" failure, which is skipped, and at a failure no rule
  matches, which is failed.
\<close>

theorem processRepositoryAPIWithResult_failure_witness:
  "(\<exists>r. processRepositoryAPIWithResult ToLowerASCII
            (Some (PlainError ''failed to create component: entity already exists''))
            ''org/repo'' = Inr r
        \<and> Skipped r \<and> Action r = ''skipped''
        \<and> map_option Type (ProcessingResult.Error r) = Some ErrorTypeEntityExists)
   \<and> (\<exists>r. processRepositoryAPIWithResult ToLowerASCII
            (Some (PlainError ''failed to create component: connection reset''))
            ''org/repo'' = Inr r
        \<and> \<not> Skipped r \<and> Action r = ''failed''
        \<and> map_option Type (ProcessingResult.Error r) = Some ErrorTypeUnknown)"
proof -
  have t1: "map_option Type
              (CategorizeError ToLowerASCII
                 (Some (PlainError ''failed to create component: entity already exists''))
                 ''org/repo'') = Some ErrorTypeEntityExists"
    by code_simp
  have t2: "map_option Type
              (CategorizeError ToLowerASCII
                 (Some (PlainError ''failed to create component: connection reset''))
                 ''org/repo'') = Some ErrorTypeUnknown"
    by code_simp
  have ne: "ErrorTypeUnknown \<noteq> ErrorTypeEntityExists"
    by (simp add: ErrorType_defs)
  from processRepositoryAPIWithResult_failure
         [of ToLowerASCII "PlainError ''failed to create component: entity already exists''"
             "''org/repo''"]
  have a: "\<exists>r. processRepositoryAPIWithResult ToLowerASCII
            (Some (PlainError ''failed to create component: entity already exists''))
            ''org/repo'' = Inr r
        \<and> Skipped r \<and> Action r = ''skipped''
        \<and> map_option Type (ProcessingResult.Error r) = Some ErrorTypeEntityExists"
    using t1 by auto
  from processRepositoryAPIWithResult_failure
         [of ToLowerASCII "PlainError ''failed to create component: connection reset''"
             "''org/repo''"]
  have b: "\<exists>r. processRepositoryAPIWithResult ToLowerASCII
            (Some (PlainError ''failed to create component: connection reset''))
            ''org/repo'' = Inr r
        \<and> \<not> Skipped r \<and> Action r = ''failed''
        \<and> map_option Type (ProcessingResult.Error r) = Some ErrorTypeUnknown"
    using t2 ne by auto
  from a b show ?thesis by blast
qed

subsection \<open>The summary of a run\<close>

lemma count_of_upd:
  "count_of (m(k \<mapsto> count_of m k + 1)) k' = (if k' = k then count_of m k + 1 else count_of m k')"
  by (simp add: count_of_def)

text \<open>The number of results that carry an error, and an error with a given property.\<close>

lemma AddResult_Total:
  "Total (AddResult s r) = Total s + (if ProcessingResult.Error r \<noteq> None then 1 else 0)"
  by (simp add: AddResult_def Let_def split: option.split)

lemma AddResult_ByCategory:
  "count_of (ByCategory (AddResult s r)) c =
     count_of (ByCategory s) c
       + (if \<exists>e. ProcessingResult.Error r = Some e \<and> Category e = c then 1 else 0)"
  by (simp add: AddResult_def Let_def count_of_upd split: option.split)

lemma AddResult_ByType:
  "count_of (ByType (AddResult s r)) t =
     count_of (ByType s) t
       + (if \<exists>e. ProcessingResult.Error r = Some e \<and> Type e = t then 1 else 0)"
  by (simp add: AddResult_def Let_def count_of_upd split: option.split)

lemma AddResult_Results: "Results (AddResult s r) = Results s @ [r]"
  by (simp add: AddResult_def Let_def split: option.split)

lemma foldl_AddResult_Total:
  "Total (foldl AddResult s rs) =
     Total s + int (length (filter (\<lambda>r. ProcessingResult.Error r \<noteq> None) rs))"
  by (induction rs arbitrary: s) (simp_all add: AddResult_Total)

lemma foldl_AddResult_ByCategory:
  "count_of (ByCategory (foldl AddResult s rs)) c =
     count_of (ByCategory s) c
       + int (length (filter (\<lambda>r. \<exists>e. ProcessingResult.Error r = Some e \<and> Category e = c) rs))"
  by (induction rs arbitrary: s) (simp_all add: AddResult_ByCategory)

lemma foldl_AddResult_ByType:
  "count_of (ByType (foldl AddResult s rs)) t =
     count_of (ByType s) t
       + int (length (filter (\<lambda>r. \<exists>e. ProcessingResult.Error r = Some e \<and> Type e = t) rs))"
  by (induction rs arbitrary: s) (simp_all add: AddResult_ByType)

lemma count_of_NewErrorSummary:
  "count_of (ByCategory NewErrorSummary) c = 0" "count_of (ByType NewErrorSummary) t = 0"
  by (simp_all add: NewErrorSummary_def count_of_def)

lemma foldl_AddResult_Results: "Results (foldl AddResult s rs) = Results s @ rs"
  by (induction rs arbitrary: s) (simp_all add: AddResult_Results)

text \<open>
  Claim C4. For the results received in a run, in whatever order: \<open>Total\<close> is the number
  of results whose \<open>Error\<close> is not nil, the counter of a category (of a type) is the
  number of results whose error has that category (that type), a result without an
  error changes no counter, whether skipped or not, and \<open>processAPIMode\<close> returns an error
  exactly when \<open>Total\<close> is positive.
\<close>

theorem ErrorSummary_counts_errors:
  "Total (processAPIMode_summary received)
     = int (length (filter (\<lambda>r. ProcessingResult.Error r \<noteq> None) received))
   \<and> count_of (ByCategory (processAPIMode_summary received)) c
       = int (length (filter (\<lambda>r. \<exists>e. ProcessingResult.Error r = Some e \<and> Category e = c)
                        received))
   \<and> count_of (ByType (processAPIMode_summary received)) t
       = int (length (filter (\<lambda>r. \<exists>e. ProcessingResult.Error r = Some e \<and> Type e = t)
                        received))
   \<and> Results (processAPIMode_summary received) = received
   \<and> (ProcessingResult.Error r = None \<longrightarrow>
        Total (AddResult s r) = Total s \<and> ByCategory (AddResult s r) = ByCategory s
        \<and> ByType (AddResult s r) = ByType s)
   \<and> (processAPIMode received \<noteq> None \<longleftrightarrow> Total (processAPIMode_summary received) > 0)"
proof (intro conjI)
  show "Total (processAPIMode_summary received)
     = int (length (filter (\<lambda>r. ProcessingResult.Error r \<noteq> None) received))"
    by (simp add: processAPIMode_summary_def foldl_AddResult_Total NewErrorSummary_def)
  show "count_of (ByCategory (processAPIMode_summary received)) c
       = int (length (filter (\<lambda>r. \<exists>e. ProcessingResult.Error r = Some e \<and> Category e = c)
                        received))"
    by (simp add: processAPIMode_summary_def foldl_AddResult_ByCategory
        count_of_NewErrorSummary)
  show "count_of (ByType (processAPIMode_summary received)) t
       = int (length (filter (\<lambda>r. \<exists>e. ProcessingResult.Error r = Some e \<and> Type e = t)
                        received))"
    by (simp add: processAPIMode_summary_def foldl_AddResult_ByType
        count_of_NewErrorSummary)
  show "Results (processAPIMode_summary received) = received"
    by (simp add: processAPIMode_summary_def foldl_AddResult_Results NewErrorSummary_def)
  show "ProcessingResult.Error r = None \<longrightarrow>
        Total (AddResult s r) = Total s \<and> ByCategory (AddResult s r) = ByCategory s
        \<and> ByType (AddResult s r) = ByType s"
    by (simp add: AddResult_def Let_def)
  show "processAPIMode received \<noteq> None \<longleftrightarrow> Total (processAPIMode_summary received) > 0"
    by (simp add: processAPIMode_def Let_def)
qed

text \<open>
  The theorem at a run of three results: one created, one skipped without an error, one
  failed with an unclassified error. Only the last is counted, and the run fails.
\<close>

theorem ErrorSummary_counts_errors_witness:
  "Total (processAPIMode_summary
       [\<lparr>Repository = ''org/a'', Success = True, Error = None,
          Message = ''Component created successfully'', Skipped = False, Action = ''created''\<rparr>,
        \<lparr>Repository = ''org/b'', Success = True, Error = None,
          Message = ''No catalog-info.yaml found'', Skipped = True, Action = ''skipped''\<rparr>,
        \<lparr>Repository = ''org/c'', Success = False,
          Error = Some (unknown_error ''connection reset'' ''org/c''
                          (Some (PlainError ''connection reset''))),
          Message = ''Component creation failed'', Skipped = False, Action = ''failed''\<rparr>]) = 1
   \<and> Total (AddResult NewErrorSummary
       \<lparr>Repository = ''org/b'', Success = True, Error = None,
         Message = ''No catalog-info.yaml found'', Skipped = True, Action = ''skipped''\<rparr>) = 0
   \<and> processAPIMode
       [\<lparr>Repository = ''org/a'', Success = True, Error = None,
          Message = ''Component created successfully'', Skipped = False, Action = ''created''\<rparr>,
        \<lparr>Repository = ''org/b'', Success = True, Error = None,
          Message = ''No catalog-info.yaml found'', Skipped = True, Action = ''skipped''\<rparr>,
        \<lparr>Repository = ''org/c'', Success = False,
          Error = Some (unknown_error ''connection reset'' ''org/c''
                          (Some (PlainError ''connection reset''))),
          Message = ''Component creation failed'', Skipped = False, Action = ''failed''\<rparr>]
       \<noteq> None"
proof -
  let ?a = "\<lparr>Repository = ''org/a'', Success = True, Error = None,
          Message = ''Component created successfully'', Skipped = False, Action = ''created''\<rparr>"
  let ?b = "\<lparr>Repository = ''org/b'', Success = True, Error = None,
          Message = ''No catalog-info.yaml found'', Skipped = True, Action = ''skipped''\<rparr>"
  let ?c = "\<lparr>Repository = ''org/c'', Success = False,
          Error = Some (unknown_error ''connection reset'' ''org/c''
                          (Some (PlainError ''connection reset''))),
          Message = ''Component creation failed'', Skipped = False, Action = ''failed''\<rparr>"
  have none: "ProcessingResult.Error ?b = None" by simp
  have zero: "Total NewErrorSummary = 0" by (simp add: NewErrorSummary_def)
  from ErrorSummary_counts_errors
         [of "[?a, ?b, ?c]" ErrorCategoryUnknown ErrorTypeUnknown ?b NewErrorSummary]
  show ?thesis using none zero by simp
qed

subsection \<open>ShouldSkip\<close>

text \<open>
  The saturation of \<open>Sub\<close> does not show in a comparison with a duration strictly
  between the two bounds.
\<close>

lemma Sub_less_iff:
  assumes "minDuration < d" and "d \<le> maxDuration"
  shows "Sub t u < d \<longleftrightarrow> t - u < d"
  using assms by (auto simp add: Sub_def minDuration_def maxDuration_def)

lemma day_in_range: "minDuration < 24 * Hour" "24 * Hour \<le> maxDuration"
  by (simp_all add: minDuration_def maxDuration_def Hour_def)

lemma week_in_range: "minDuration < 168 * Hour" "168 * Hour \<le> maxDuration"
  by (simp_all add: minDuration_def maxDuration_def Hour_def)

text \<open>
  Claim C2. The decision table of \<open>ShouldSkip\<close>, with the elapsed time \<open>now - LastProcessed\<close>
  in nanoseconds: 24 hours are \<open>86400000000000\<close> and 7 days are \<open>604800000000000\<close>.
\<close>

theorem ShouldSkip_decision_table:
  "(map_index (ProcessedRepos (state m)) repo = None
      \<longrightarrow> \<not> ShouldSkip now m repo lastPushed)
   \<and> (\<forall>rs. map_index (ProcessedRepos (state m)) repo = Some rs \<longrightarrow>
         (Status rs = ''error'' \<longrightarrow>
            (ShouldSkip now m repo lastPushed
               \<longleftrightarrow> now - LastProcessed rs < 86400000000000))
       \<and> (Status rs = ''success'' \<and> LastProcessed rs < lastPushed \<longrightarrow>
            \<not> ShouldSkip now m repo lastPushed)
       \<and> (Status rs = ''success'' \<and> \<not> LastProcessed rs < lastPushed \<longrightarrow>
            (ShouldSkip now m repo lastPushed
               \<longleftrightarrow> now - LastProcessed rs < 604800000000000))
       \<and> (Status rs \<noteq> ''error'' \<and> Status rs \<noteq> ''success'' \<longrightarrow>
            \<not> ShouldSkip now m repo lastPushed))"
proof -
  have day: "Sub now t < 24 * Hour \<longleftrightarrow> now - t < 86400000000000" for t
    using Sub_less_iff [OF day_in_range] by (simp add: Hour_def)
  have week: "Sub now t < 168 * Hour \<longleftrightarrow> now - t < 604800000000000" for t
    using Sub_less_iff [OF week_in_range] by (simp add: Hour_def)
  show ?thesis
    by (simp add: ShouldSkip_def Since_def After_def day week)
qed

text \<open>
  The theorem on the example ledger, two hours after the clock's first reading: the
  repository that failed three hours before is skipped, the one that succeeded is
  skipped unless it was pushed to since, and neither an unknown one nor the one in
  progress is skipped.
\<close>

theorem ShouldSkip_decision_table_witness:
  "ShouldSkip 1700007200000000000 example_manager ''org/failed'' 0
   \<and> ShouldSkip 1700007200000000000 example_manager ''org/done'' 1699913600000000000
   \<and> \<not> ShouldSkip 1700007200000000000 example_manager ''org/done'' 1699913600000000001
   \<and> \<not> ShouldSkip 1700007200000000000 example_manager ''org/new'' 0
   \<and> \<not> ShouldSkip 1700007200000000000 example_manager ''org/running'' 0"
proof -
  have f: "map_index (ProcessedRepos (state example_manager)) ''org/failed''
             = Some \<lparr>LastProcessed = 1699996400000000000, LastCommit = '''',
                     Status = ''error'', Error = ''connection reset''\<rparr>"
    by (simp add: example_manager_def example_state_def map_index_def)
  have d: "map_index (ProcessedRepos (state example_manager)) ''org/done''
             = Some \<lparr>LastProcessed = 1699913600000000000, LastCommit = '''',
                     Status = ''success'', Error = ''''\<rparr>"
    by (simp add: example_manager_def example_state_def map_index_def)
  have n: "map_index (ProcessedRepos (state example_manager)) ''org/new'' = None"
    by (simp add: example_manager_def example_state_def map_index_def)
  have 1: "ShouldSkip 1700007200000000000 example_manager ''org/failed'' 0"
    using ShouldSkip_decision_table
            [of example_manager "''org/failed''" 1700007200000000000 0] f
    by simp
  have 2: "ShouldSkip 1700007200000000000 example_manager ''org/done'' 1699913600000000000"
    using ShouldSkip_decision_table
            [of example_manager "''org/done''" 1700007200000000000 1699913600000000000] d
    by simp
  have 3: "\<not> ShouldSkip 1700007200000000000 example_manager ''org/done'' 1699913600000000001"
    using ShouldSkip_decision_table
            [of example_manager "''org/done''" 1700007200000000000 1699913600000000001] d
    by simp
  have 4: "\<not> ShouldSkip 1700007200000000000 example_manager ''org/new'' 0"
    using ShouldSkip_decision_table
            [of example_manager "''org/new''" 1700007200000000000 0] n
    by simp
  have p: "map_index (ProcessedRepos (state example_manager)) ''org/running''
             = Some \<lparr>LastProcessed = 1699996400000000000, LastCommit = '''',
                     Status = ''in_progress'', Error = ''''\<rparr>"
    by (simp add: example_manager_def example_state_def map_index_def)
  have 5: "\<not> ShouldSkip 1700007200000000000 example_manager ''org/running'' 0"
    using ShouldSkip_decision_table
            [of example_manager "''org/running''" 1700007200000000000 0] p
    by simp
  from 1 2 3 4 5 show ?thesis by blast
qed

subsection \<open>The record operations\<close>

lemma saveStateUnsafe_persists:
  assumes "\<not> write_fails w (filePath m)"
  shows "\<exists>m' w'. saveStateUnsafe (m, w) = (None, m', w')
           \<and> files w' (filePath m') = Some (Marshalled (state m'))
           \<and> filePath m' = filePath m
           \<and> ProcessedRepos (state m') = ProcessedRepos (state m)"
  using assms by (simp add: saveStateUnsafe_def time_Now_def Let_def)

text \<open>
  \<open>RecordSuccess\<close> and \<open>RecordError\<close> write the ledger through: when the map is not nil
  and the write does not fail, they return, the entry is the new one, and the file
  holds the ledger in memory.
\<close>

lemma RecordSuccess_persists:
  assumes "ProcessedRepos (state m) \<noteq> None" and "\<not> write_fails w (filePath m)"
  shows "\<exists>m' w' entry. RecordSuccess repo lastPushed mode (m, w) = Inr (m', w')
           \<and> map_index (ProcessedRepos (state m')) repo = Some entry
           \<and> Status entry = ''success''
           \<and> files w' (filePath m') = Some (Marshalled (state m'))"
  using assms
  by (auto simp add: RecordSuccess_def saveStateUnsafe_def time_Now_def Let_def map_index_def)

lemma RecordError_persists:
  assumes "ProcessedRepos (state m) \<noteq> None" and "\<not> write_fails w (filePath m)"
  shows "\<exists>m' w' entry. RecordError repo (Some e) (m, w) = Inr (m', w')
           \<and> map_index (ProcessedRepos (state m')) repo = Some entry
           \<and> Status entry = ''error''
           \<and> files w' (filePath m') = Some (Marshalled (state m'))"
  using assms
  by (auto simp add: RecordError_def saveStateUnsafe_def time_Now_def Let_def map_index_def)

text \<open>\<open>RecordInProgress\<close> writes the entry and leaves every file as it was.\<close>

lemma RecordInProgress_files:
  assumes "RecordInProgress repo (m, w) = Inr (m', w')"
  shows "files w' = files w
         \<and> map_option Status (map_index (ProcessedRepos (state m')) repo) = Some ''in_progress''"
  using assms
  by (auto simp add: RecordInProgress_def time_Now_def Let_def map_index_def
      split: option.splits)

text \<open>
  Claim C1 fails at \<open>RecordInProgress\<close>. On the example ledger, whose file holds it, the
  call for a new repository returns; the ledger in memory then has the repository as
  "in_progress", and the file still holds the ledger of before, which has no entry for
  it.
\<close>

theorem RecordInProgress_not_persisted:
  "(case RecordInProgress ''org/new'' (example_manager, example_world) of
      Inl p \<Rightarrow> False
    | Inr (m', w') \<Rightarrow>
        map_option Status (map_index (ProcessedRepos (state m')) ''org/new'')
          = Some ''in_progress''
        \<and> files w' (filePath m') = Some (Marshalled example_state)
        \<and> map_index (ProcessedRepos example_state) ''org/new'' = None
        \<and> write_fails w' (filePath m') = False)"
  by (simp add: RecordInProgress_def time_Now_def Let_def map_index_def
      example_manager_def example_world_def example_state_def)

text \<open>
  Claim C3, as amended. \<open>RecordError\<close> stores the first 500 bytes of the message followed
  by "..." when the message is longer than 500 bytes, and the message itself otherwise:
  at most 503 bytes.
\<close>

theorem RecordError_message_bound:
  assumes "ProcessedRepos (state m) \<noteq> None"
  shows "\<exists>m' w' entry. RecordError repo (Some e) (m, w) = Inr (m', w')
           \<and> map_index (ProcessedRepos (state m')) repo = Some entry
           \<and> RepoState.Error entry =
               (if length (ErrorString e) > 500 then take 500 (ErrorString e) @ ''...''
                else ErrorString e)
           \<and> length (RepoState.Error entry) \<le> 503"
  using assms
  by (auto simp add: RecordError_def saveStateUnsafe_def time_Now_def Let_def map_index_def)

text \<open>The theorem on the example ledger, at a short message, stored as it is.\<close>

theorem RecordError_message_bound_witness:
  "\<exists>m' w' entry.
     RecordError ''org/new'' (Some (PlainError ''connection reset''))
       (example_manager, example_world) = Inr (m', w')
     \<and> map_index (ProcessedRepos (state m')) ''org/new'' = Some entry
     \<and> RepoState.Error entry = ''connection reset''"
proof -
  have h: "ProcessedRepos (state example_manager) \<noteq> None"
    by (simp add: example_manager_def example_state_def)
  from RecordError_message_bound
         [OF h, of "''org/new''" "PlainError ''connection reset''" example_world]
  obtain m' w' entry where
    "RecordError ''org/new'' (Some (PlainError ''connection reset''))
       (example_manager, example_world) = Inr (m', w')"
    "map_index (ProcessedRepos (state m')) ''org/new'' = Some entry"
    "RepoState.Error entry =
       (if length (ErrorString (PlainError ''connection reset'')) > 500
        then take 500 (ErrorString (PlainError ''connection reset'')) @ ''...''
        else ErrorString (PlainError ''connection reset''))"
    by blast
  then show ?thesis by simp
qed

text \<open>
  The bound of 500 fails at a message of 501 bytes: what is stored has 503.
\<close>

theorem RecordError_500_counterexample:
  "(case RecordError ''org/new'' (Some (PlainError (replicate 501 CHR ''x'')))
           (example_manager, example_world) of
      Inl p \<Rightarrow> False
    | Inr (m', w') \<Rightarrow>
        map_option (length \<circ> RepoState.Error)
          (map_index (ProcessedRepos (state m')) ''org/new'') = Some 503)"
  by (simp add: RecordError_def saveStateUnsafe_def time_Now_def Let_def map_index_def
      example_manager_def example_world_def example_state_def)

subsection \<open>ImportState\<close>

text \<open>
  Claim C10. When the file cannot be read, or cannot be decoded, or decodes to a state
  whose \<open>ProcessedRepos\<close> is nil, \<open>ImportState\<close> returns the error of that case and leaves
  the manager, and the files, as they were.
\<close>

theorem ImportState_atomic:
  assumes "files w path = None \<or> files w path = Some Unparsable
           \<or> (\<exists>s. files w path = Some (Marshalled s) \<and> ProcessedRepos s = None)"
  shows "ImportState path (m, w) =
           (Some (case files w path of
                    None \<Rightarrow> ReadFailed
                  | Some Unparsable \<Rightarrow> UnmarshalFailed
                  | Some (Marshalled s) \<Rightarrow> MissingProcessedRepos),
            m, w)"
  using assms by (auto simp add: ImportState_def)

text \<open>The theorem in the example world, at a file of each kind.\<close>

theorem ImportState_atomic_witness:
  "ImportState ''missing.json'' (example_manager, example_world)
     = (Some ReadFailed, example_manager, example_world)
   \<and> ImportState ''garbage.json'' (example_manager, example_world)
     = (Some UnmarshalFailed, example_manager, example_world)
   \<and> ImportState ''no_repos.json'' (example_manager, example_world)
     = (Some MissingProcessedRepos, example_manager, example_world)"
proof -
  have a: "files example_world ''missing.json'' = None"
    by (simp add: example_world_def)
  have b: "files example_world ''garbage.json'' = Some Unparsable"
    by (simp add: example_world_def)
  have c: "files example_world ''no_repos.json''
             = Some (Marshalled \<lparr>LastRun = 0, ProcessedRepos = None\<rparr>)"
    by (simp add: example_world_def)
  have 1: "ImportState ''missing.json'' (example_manager, example_world)
             = (Some ReadFailed, example_manager, example_world)"
    using ImportState_atomic [of example_world "''missing.json''" example_manager] a
    by simp
  have 2: "ImportState ''garbage.json'' (example_manager, example_world)
             = (Some UnmarshalFailed, example_manager, example_world)"
    using ImportState_atomic [of example_world "''garbage.json''" example_manager] b
    by simp
  have 3: "ImportState ''no_repos.json'' (example_manager, example_world)
             = (Some MissingProcessedRepos, example_manager, example_world)"
    using ImportState_atomic [of example_world "''no_repos.json''" example_manager] c
    by simp
  from 1 2 3 show ?thesis by blast
qed

subsection \<open>Trimming\<close>

declare strip_leading.simps [simp del]

lemma strip_leading_None:
  assumes "find (\<lambda>t. t \<noteq> [] \<and> prefix t s) toks = None"
  shows "strip_leading toks s = s"
  using assms by (subst strip_leading.simps) simp

lemma strip_leading_Some:
  assumes "find (\<lambda>t. t \<noteq> [] \<and> prefix t s) toks = Some t"
  shows "strip_leading toks s = strip_leading toks (drop (length t) s)"
  using assms by (subst strip_leading.simps) simp

text \<open>What is left starts with none of the tokens, and what was removed is made of them.\<close>

lemma strip_leading_stops:
  "find (\<lambda>t. t \<noteq> [] \<and> prefix t (strip_leading toks s)) toks = None"
proof (induction toks s rule: strip_leading.induct)
  case (1 toks s)
  show ?case
  proof (cases "find (\<lambda>t. t \<noteq> [] \<and> prefix t s) toks")
    case None
    then show ?thesis by (simp add: strip_leading_None)
  next
    case (Some t)
    with "1.IH" show ?thesis by (simp add: strip_leading_Some)
  qed
qed

lemma strip_leading_decomp:
  "\<exists>ws. s = ws @ strip_leading toks s \<and> set ws \<subseteq> \<Union> (set ` set toks)"
proof (induction toks s rule: strip_leading.induct)
  case (1 toks s)
  show ?case
  proof (cases "find (\<lambda>t. t \<noteq> [] \<and> prefix t s) toks")
    case None
    then have "s = [] @ strip_leading toks s" by (simp add: strip_leading_None)
    then show ?thesis by (metis empty_set empty_subsetI)
  next
    case (Some t)
    then have t: "t \<in> set toks" "prefix t s"
      by (auto simp add: find_Some_iff)
    from "1.IH" [OF Some] obtain ws where
      ws: "drop (length t) s = ws @ strip_leading toks (drop (length t) s)"
          "set ws \<subseteq> \<Union> (set ` set toks)"
      by blast
    from t have "s = t @ drop (length t) s"
      by (metis append_eq_conv_conj prefixE)
    with ws have "s = (t @ ws) @ strip_leading toks s"
      using Some by (metis append.assoc strip_leading_Some)
    moreover from t ws have "set (t @ ws) \<subseteq> \<Union> (set ` set toks)" by auto
    ultimately show ?thesis by blast
  qed
qed

text \<open>A byte that occurs in no token stops the removal, whatever follows it.\<close>

lemma prefix_before_barrier:
  assumes "c \<notin> set t"
  shows "prefix t (u @ c # z) \<longleftrightarrow> prefix t u"
proof
  assume "prefix t (u @ c # z)"
  then consider "prefix t u" | us where "t = u @ us" "prefix us (c # z)"
    by (auto simp add: prefix_append)
  then show "prefix t u"
  proof cases
    case 1
    then show ?thesis .
  next
    case 2
    with assms have "us = []" by (cases us) auto
    with 2 show ?thesis by simp
  qed
next
  assume "prefix t u"
  then show "prefix t (u @ c # z)" by (rule prefix_prefix)
qed

lemma strip_leading_barrier:
  assumes "\<forall>t \<in> set toks. c \<notin> set t"
  shows "strip_leading toks (u @ c # z) = strip_leading toks u @ c # z"
  using assms
proof (induction toks u rule: strip_leading.induct)
  case (1 toks u)
  have same: "find (\<lambda>t. t \<noteq> [] \<and> prefix t (u @ c # z)) toks
                = find (\<lambda>t. t \<noteq> [] \<and> prefix t u) toks"
    using "1.prems" by (intro find_cong) (auto simp add: prefix_before_barrier)
  show ?case
  proof (cases "find (\<lambda>t. t \<noteq> [] \<and> prefix t u) toks")
    case None
    with same show ?thesis by (simp add: strip_leading_None)
  next
    case (Some t)
    then have "prefix t u" by (auto simp add: find_Some_iff)
    then have "length t \<le> length u" by (rule prefix_length_le)
    then have "drop (length t) (u @ c # z) = drop (length t) u @ c # z" by simp
    moreover have "strip_leading toks (u @ c # z)
                     = strip_leading toks (drop (length t) (u @ c # z))"
      using same Some by (simp add: strip_leading_Some)
    moreover have "strip_leading toks u = strip_leading toks (drop (length t) u)"
      using Some by (rule strip_leading_Some)
    moreover have "strip_leading toks (drop (length t) u @ c # z)
                     = strip_leading toks (drop (length t) u) @ c # z"
      using "1.IH" [OF Some "1.prems"] .
    ultimately show ?thesis by simp
  qed
qed

text \<open>The bytes the sanitizer relies on are not among those of the space encodings.\<close>

lemma space_bytes_rev: "\<Union> (set ` set (map rev space_encodings)) = space_bytes"
  by (simp add: space_bytes_def)

lemma not_space_bytes:
  "CHR ''i'' \<notin> space_bytes" "CHR '':'' \<notin> space_bytes"
  "CHR ''-'' \<notin> space_bytes" "CHR ''_'' \<notin> space_bytes"
  by (simp_all add: space_bytes_def space_encodings_def)

lemma barrier_space:
  assumes "c \<notin> space_bytes"
  shows "\<forall>t \<in> set space_encodings. c \<notin> set t"
    and "\<forall>t \<in> set (map rev space_encodings). c \<notin> set t"
  using assms by (auto simp add: space_bytes_def)

lemma TrimSpace_trimmed_id:
  assumes "trimmed x"
  shows "TrimSpace x = x"
  using assms by (simp add: TrimSpace_def trimmed_def strip_leading_None)

lemma TrimSpace_prefix: "prefix (TrimSpace x) (strip_leading space_encodings x)"
proof -
  obtain ws where
    "rev (strip_leading space_encodings x)
       = ws @ strip_leading (map rev space_encodings) (rev (strip_leading space_encodings x))"
    using strip_leading_decomp by blast
  then have "strip_leading space_encodings x = TrimSpace x @ rev ws"
    unfolding TrimSpace_def by (metis rev_append rev_rev_ident)
  then show ?thesis by (metis prefixI)
qed

lemma set_TrimSpace: "set (TrimSpace x) \<subseteq> set x"
proof -
  obtain ws where "x = ws @ strip_leading space_encodings x"
    using strip_leading_decomp by blast
  then have "set (strip_leading space_encodings x) \<subseteq> set x"
    by (metis Un_upper2 set_append)
  moreover have "set (TrimSpace x) \<subseteq> set (strip_leading space_encodings x)"
    using TrimSpace_prefix by (rule set_mono_prefix)
  ultimately show ?thesis by blast
qed

lemma find_None_prefix:
  assumes "find (\<lambda>t. t \<noteq> [] \<and> prefix t y) toks = None" and "prefix x y"
  shows "find (\<lambda>t. t \<noteq> [] \<and> prefix t x) toks = None"
  using assms by (auto simp add: find_None_iff dest: prefix_order.trans)

lemma trimmed_TrimSpace: "trimmed (TrimSpace x)"
proof -
  have "find (\<lambda>t. t \<noteq> [] \<and> prefix t (TrimSpace x)) space_encodings = None"
    using strip_leading_stops TrimSpace_prefix by (rule find_None_prefix)
  moreover
  have "find (\<lambda>t. t \<noteq> [] \<and> prefix t (rev (TrimSpace x))) (map rev space_encodings) = None"
    unfolding TrimSpace_def rev_rev_ident by (rule strip_leading_stops)
  ultimately show ?thesis by (simp add: trimmed_def)
qed

text \<open>Replacing hyphens keeps a string trimmed: no encoding has a hyphen or an underscore.\<close>

lemma prefix_ReplaceAll_hyphen:
  assumes "CHR ''_'' \<notin> set t" and "prefix t (ReplaceAll_hyphen w)"
  shows "prefix t w"
  using assms
proof (induction t arbitrary: w)
  case Nil
  then show ?case by simp
next
  case (Cons c t)
  from Cons.prems obtain d w' where w: "w = d # w'"
    by (cases w) (auto simp add: ReplaceAll_hyphen_def)
  with Cons.prems have "c = (if d = CHR ''-'' then CHR ''_'' else d)"
    and "prefix t (ReplaceAll_hyphen w')"
    by (auto simp add: ReplaceAll_hyphen_def)
  with Cons.prems Cons.IH w show ?case
    by (auto split: if_splits)
qed

lemma rev_ReplaceAll_hyphen: "rev (ReplaceAll_hyphen w) = ReplaceAll_hyphen (rev w)"
  by (simp add: ReplaceAll_hyphen_def rev_map)

lemma trimmed_ReplaceAll_hyphen:
  assumes "trimmed w"
  shows "trimmed (ReplaceAll_hyphen w)"
proof -
  have a: "CHR ''_'' \<notin> set t" if "t \<in> set space_encodings" for t
    using that not_space_bytes(4) by (auto simp add: space_bytes_def)
  have b: "CHR ''_'' \<notin> set t" if "t \<in> set (map rev space_encodings)" for t
    using that not_space_bytes(4) by (auto simp add: space_bytes_def)
  from assms show ?thesis
    unfolding trimmed_def find_None_iff rev_ReplaceAll_hyphen
    using a b prefix_ReplaceAll_hyphen by blast
qed

lemma ReplaceAll_hyphen_idem: "ReplaceAll_hyphen (ReplaceAll_hyphen w) = ReplaceAll_hyphen w"
  by (simp add: ReplaceAll_hyphen_def)

lemma no_hyphen_ReplaceAll: "CHR ''-'' \<notin> set (ReplaceAll_hyphen w)"
  by (auto simp add: ReplaceAll_hyphen_def)

text \<open>One space before a trimmed string is trimmed away.\<close>

lemma TrimSpace_space_trimmed:
  assumes "trimmed v"
  shows "TrimSpace (CHR '' '' # v) = v"
proof -
  have "find (\<lambda>t. t \<noteq> [] \<and> prefix t (CHR '' '' # v)) space_encodings = Some [CHR '' '']"
    by (simp add: space_encodings_def)
  then have "strip_leading space_encodings (CHR '' '' # v) = strip_leading space_encodings v"
    by (simp add: strip_leading_Some)
  also have "\<dots> = v"
    using assms by (simp add: trimmed_def strip_leading_None)
  finally have "TrimSpace (CHR '' '' # v) = rev (strip_leading (map rev space_encodings) (rev v))"
    by (simp add: TrimSpace_def)
  also have "\<dots> = v"
    using assms by (simp add: trimmed_def strip_leading_None)
  finally show ?thesis .
qed

subsection \<open>sanitizeYAMLIdentifiers\<close>

text \<open>
  A line that passes the test of the loop is some space encodings, then "identifier:",
  then the rest.
\<close>

lemma identifier_line_shape:
  assumes "prefix ''identifier:'' (TrimSpace line)"
  obtains ws rest where "line = ws @ ''identifier:'' @ rest"
    and "set ws \<subseteq> space_bytes" and "strip_leading space_encodings ws = []"
proof -
  obtain ws where ws: "line = ws @ strip_leading space_encodings line"
    and sp: "set ws \<subseteq> space_bytes"
    using strip_leading_decomp unfolding space_bytes_def by blast
  from assms TrimSpace_prefix have "prefix ''identifier:'' (strip_leading space_encodings line)"
    by (rule prefix_order.trans)
  then obtain rest where rest: "strip_leading space_encodings line = ''identifier:'' @ rest"
    by (auto elim: prefixE)
  with ws have line: "line = ws @ CHR ''i'' # (''dentifier:'' @ rest)" by simp
  have "strip_leading space_encodings line
          = strip_leading space_encodings ws @ CHR ''i'' # (''dentifier:'' @ rest)"
    by (subst line) (rule strip_leading_barrier [OF barrier_space(1) [OF not_space_bytes(1)]])
  with rest have "strip_leading space_encodings ws = []" by simp
  with ws rest sp that show thesis by simp
qed

text \<open>What the loop makes of such a line, and that the result passes the test again.\<close>

lemma sanitize_line_identifier:
  assumes "prefix ''identifier:'' (TrimSpace (ws @ ''identifier:'' @ rest))"
    and "set ws \<subseteq> space_bytes"
  shows "sanitize_line (ws @ ''identifier:'' @ rest)
           = ws @ ''identifier: '' @ ReplaceAll_hyphen (TrimSpace rest)"
proof -
  from assms(2) not_space_bytes(2) have nc: "\<forall>c \<in> set ws. c \<noteq> CHR '':''" by auto
  then have "SplitN2_colon (ws @ ''identifier:'' @ rest) = [ws @ ''identifier'', rest]"
    by (simp add: SplitN2_colon_def takeWhile_append dropWhile_append)
  with assms(1) show ?thesis by (simp add: sanitize_line_def)
qed

lemma identifier_line_test:
  assumes "strip_leading space_encodings ws = []"
  shows "prefix ''identifier:'' (TrimSpace (ws @ ''identifier: '' @ v))"
proof -
  have "strip_leading space_encodings (ws @ CHR ''i'' # (''dentifier: '' @ v))
          = strip_leading space_encodings ws @ CHR ''i'' # (''dentifier: '' @ v)"
    by (rule strip_leading_barrier [OF barrier_space(1) [OF not_space_bytes(1)]])
  with assms have left: "strip_leading space_encodings (ws @ ''identifier: '' @ v)
                           = ''identifier: '' @ v"
    by simp
  have "rev (''identifier: '' @ v) = (rev v @ '' '') @ CHR '':'' # ''reifitnedi''"
    by simp
  moreover have "strip_leading (map rev space_encodings)
                   ((rev v @ '' '') @ CHR '':'' # ''reifitnedi'')
                 = strip_leading (map rev space_encodings) (rev v @ '' '')
                     @ CHR '':'' # ''reifitnedi''"
    by (rule strip_leading_barrier [OF barrier_space(2) [OF not_space_bytes(2)]])
  ultimately have "TrimSpace (ws @ ''identifier: '' @ v)
                     = ''identifier:''
                         @ rev (strip_leading (map rev space_encodings) (rev v @ '' ''))"
    unfolding TrimSpace_def left by simp
  then show ?thesis by simp
qed

lemma sanitize_line_fixed:
  assumes "set ws \<subseteq> space_bytes" and "strip_leading space_encodings ws = []"
    and "trimmed v" and "ReplaceAll_hyphen v = v"
  shows "sanitize_line (ws @ ''identifier: '' @ v) = ws @ ''identifier: '' @ v"
proof -
  have "prefix ''identifier:'' (TrimSpace (ws @ ''identifier:'' @ (CHR '' '' # v)))"
    using identifier_line_test [OF assms(2), of v] by simp
  then have "sanitize_line (ws @ ''identifier:'' @ (CHR '' '' # v))
               = ws @ ''identifier: '' @ ReplaceAll_hyphen (TrimSpace (CHR '' '' # v))"
    using assms(1) by (rule sanitize_line_identifier)
  then show ?thesis
    using assms(3,4) by (simp add: TrimSpace_space_trimmed)
qed

text \<open>The two cases of a line: left as it is, or rewritten to a fixed point without hyphens.\<close>

lemma sanitize_line_cases:
  obtains (unchanged) "\<not> prefix ''identifier:'' (TrimSpace line)" "sanitize_line line = line"
  | (rewritten) ws v where "prefix ''identifier:'' (TrimSpace line)"
      "sanitize_line line = ws @ ''identifier: '' @ v"
      "set ws \<subseteq> space_bytes" "strip_leading space_encodings ws = []"
      "trimmed v" "ReplaceAll_hyphen v = v"
proof (cases "prefix ''identifier:'' (TrimSpace line)")
  case False
  then have "sanitize_line line = line" by (simp add: sanitize_line_def)
  with False unchanged show ?thesis by blast
next
  case True
  then obtain ws rest where line: "line = ws @ ''identifier:'' @ rest"
    and ws: "set ws \<subseteq> space_bytes" "strip_leading space_encodings ws = []"
    by (rule identifier_line_shape)
  let ?v = "ReplaceAll_hyphen (TrimSpace rest)"
  from True ws(1) have "sanitize_line line = ws @ ''identifier: '' @ ?v"
    unfolding line by (rule sanitize_line_identifier)
  moreover have "trimmed ?v"
    by (rule trimmed_ReplaceAll_hyphen) (rule trimmed_TrimSpace)
  moreover have "ReplaceAll_hyphen ?v = ?v"
    by (rule ReplaceAll_hyphen_idem)
  ultimately show ?thesis using True ws rewritten by blast
qed

lemma sanitize_line_idem: "sanitize_line (sanitize_line line) = sanitize_line line"
proof (cases line rule: sanitize_line_cases)
  case unchanged
  then show ?thesis by simp
next
  case (rewritten ws v)
  from rewritten(3-6)
  have "sanitize_line (ws @ ''identifier: '' @ v) = ws @ ''identifier: '' @ v"
    by (rule sanitize_line_fixed)
  with rewritten(2) show ?thesis by simp
qed

lemma no_hyphen_space_bytes:
  assumes "set ws \<subseteq> space_bytes"
  shows "CHR ''-'' \<notin> set ws"
  using assms not_space_bytes(3) by auto

text \<open>A line of the output that passes the test has no hyphen at all.\<close>

lemma sanitize_line_no_hyphen:
  assumes "prefix ''identifier:'' (TrimSpace (sanitize_line line))"
  shows "CHR ''-'' \<notin> set (sanitize_line line)"
proof (cases line rule: sanitize_line_cases)
  case unchanged
  with assms show ?thesis by simp
next
  case (rewritten ws v)
  from rewritten(6) have "CHR ''-'' \<notin> set v"
    by (metis no_hyphen_ReplaceAll)
  with rewritten(2) no_hyphen_space_bytes [OF rewritten(3)] show ?thesis
    by simp
qed

text \<open>The loop neither makes nor removes a line break.\<close>

lemma sanitize_line_no_newline:
  assumes "CHR 0x0A \<notin> set line"
  shows "CHR 0x0A \<notin> set (sanitize_line line)"
proof (cases "prefix ''identifier:'' (TrimSpace line)")
  case False
  with assms show ?thesis by (simp add: sanitize_line_def)
next
  case True
  show ?thesis
  proof (cases "CHR '':'' \<in> set line")
    case False
    with assms show ?thesis by (simp add: sanitize_line_def SplitN2_colon_def)
  next
    case colon: True
    let ?rest = "tl (dropWhile (\<lambda>c. c \<noteq> CHR '':'') line)"
    have "set ?rest \<subseteq> set line"
      by (metis list.set_sel(2) set_dropWhileD subsetI tl_Nil)
    with set_TrimSpace [of ?rest] assms have "CHR 0x0A \<notin> set (TrimSpace ?rest)" by blast
    then have "CHR 0x0A \<notin> set (ReplaceAll_hyphen (TrimSpace ?rest))"
      by (auto simp add: ReplaceAll_hyphen_def)
    moreover have "CHR 0x0A \<notin> set (takeWhile (\<lambda>c. c \<noteq> CHR '':'') line)"
      using assms by (metis set_takeWhileD)
    ultimately show ?thesis
      using True colon by (simp add: sanitize_line_def SplitN2_colon_def)
  qed
qed

subsection \<open>Splitting and joining lines\<close>

lemma Split_newline_not_Nil: "Split_newline s \<noteq> []"
  by (induction s) (auto split: list.splits)

lemma Split_newline_lines: "l \<in> set (Split_newline s) \<Longrightarrow> CHR 0x0A \<notin> set l"
  by (induction s arbitrary: l) (auto split: list.splits if_splits)

lemma Split_newline_line:
  assumes "CHR 0x0A \<notin> set l"
  shows "Split_newline l = [l]"
  using assms by (induction l) auto

lemma Split_newline_append:
  assumes "CHR 0x0A \<notin> set l"
  shows "Split_newline (l @ CHR 0x0A # r) = l # Split_newline r"
  using assms by (induction l) auto

lemma Split_Join_newline:
  assumes "ls \<noteq> []" and "\<forall>l \<in> set ls. CHR 0x0A \<notin> set l"
  shows "Split_newline (Join_newline ls) = ls"
  using assms
proof (induction ls rule: Join_newline.induct)
  case 1
  then show ?case by simp
next
  case (2 l)
  then show ?case by (simp add: Split_newline_line)
next
  case (3 l l' ls)
  then show ?case by (simp add: Split_newline_append)
qed

lemma Split_sanitize:
  "Split_newline (sanitizeYAMLIdentifiers s) = map sanitize_line (Split_newline s)"
  unfolding sanitizeYAMLIdentifiers_def
  by (rule Split_Join_newline)
     (auto simp add: Split_newline_not_Nil dest: Split_newline_lines sanitize_line_no_newline)

text \<open>
  Claim C7. Sanitizing twice is sanitizing once; and in the output, a line whose trimmed
  text begins with "identifier:" has no hyphen, in its value (what \<open>SplitN\<close> returns as
  the second part) or elsewhere.
\<close>

theorem sanitizeYAMLIdentifiers_idempotent:
  "sanitizeYAMLIdentifiers (sanitizeYAMLIdentifiers s) = sanitizeYAMLIdentifiers s
   \<and> (\<forall>l \<in> set (Split_newline (sanitizeYAMLIdentifiers s)).
        prefix ''identifier:'' (TrimSpace l) \<longrightarrow>
          CHR ''-'' \<notin> set l
          \<and> (\<forall>fieldPart valuePart.
               SplitN2_colon l = [fieldPart, valuePart] \<longrightarrow> CHR ''-'' \<notin> set valuePart))"
proof (intro conjI ballI impI allI)
  have "sanitizeYAMLIdentifiers (sanitizeYAMLIdentifiers s)
          = Join_newline (map sanitize_line (map sanitize_line (Split_newline s)))"
    by (simp add: sanitizeYAMLIdentifiers_def [of "sanitizeYAMLIdentifiers s"] Split_sanitize)
  also have "\<dots> = Join_newline (map sanitize_line (Split_newline s))"
    by (simp add: sanitize_line_idem comp_def)
  finally show "sanitizeYAMLIdentifiers (sanitizeYAMLIdentifiers s) = sanitizeYAMLIdentifiers s"
    by (simp add: sanitizeYAMLIdentifiers_def)
next
  fix l
  assume l: "l \<in> set (Split_newline (sanitizeYAMLIdentifiers s))"
    and test: "prefix ''identifier:'' (TrimSpace l)"
  from l obtain l0 where "l = sanitize_line l0"
    by (auto simp add: Split_sanitize)
  with test show nh: "CHR ''-'' \<notin> set l"
    by (simp add: sanitize_line_no_hyphen)
  fix fieldPart valuePart
  assume "SplitN2_colon l = [fieldPart, valuePart]"
  then have "valuePart = tl (dropWhile (\<lambda>c. c \<noteq> CHR '':'') l)"
    by (auto simp add: SplitN2_colon_def split: if_splits)
  then have "set valuePart \<subseteq> set l"
    by (metis list.set_sel(2) set_dropWhileD subsetI tl_Nil)
  with nh show "CHR ''-'' \<notin> set valuePart" by blast
qed

text \<open>
  The theorem at a manifest of two lines: the name keeps its hyphen, the identifier
  loses both of its, and a second pass changes nothing.
\<close>

theorem sanitizeYAMLIdentifiers_idempotent_witness:
  "sanitizeYAMLIdentifiers (''name: my-svc'' @ [CHR 0x0A] @ ''  identifier:  my-svc-1 '')
     = ''name: my-svc'' @ [CHR 0x0A] @ ''  identifier: my_svc_1''
   \<and> sanitizeYAMLIdentifiers (''name: my-svc'' @ [CHR 0x0A] @ ''  identifier: my_svc_1'')
     = ''name: my-svc'' @ [CHR 0x0A] @ ''  identifier: my_svc_1''
   \<and> CHR ''-'' \<notin> set ''  identifier: my_svc_1''"
proof -
  let ?s = "''name: my-svc'' @ [CHR 0x0A] @ ''  identifier:  my-svc-1 ''"
  let ?out = "''name: my-svc'' @ [CHR 0x0A] @ ''  identifier: my_svc_1''"
  have out: "sanitizeYAMLIdentifiers ?s = ?out"
    by code_simp
  have line: "''  identifier: my_svc_1'' \<in> set (Split_newline ?out)"
    by code_simp
  have test: "prefix ''identifier:'' (TrimSpace ''  identifier: my_svc_1'')"
    by code_simp
  from sanitizeYAMLIdentifiers_idempotent [of ?s]
  have "sanitizeYAMLIdentifiers ?out = ?out"
    and "\<forall>l \<in> set (Split_newline ?out).
           prefix ''identifier:'' (TrimSpace l) \<longrightarrow> CHR ''-'' \<notin> set l"
    unfolding out by blast+
  with out line test show ?thesis by blast
qed

end
